theory Spec2Isabelle
  imports Main "HOL-Library.Word"
begin

section \<open>The session send and receive paths (network.go)\<close>

text \<open>
  Go's \<^verbatim>\<open>int32\<close> and \<^verbatim>\<open>int64\<close> are words of that width: addition
  wraps, \<open>sint\<close> reads the two's complement value. Go's \<^verbatim>\<open>int\<close> is taken to be 64 bits
  wide, as on every 64-bit platform, so that \<^verbatim>\<open>int(msgID)\<close> is the identity.
\<close>

type_synonym int32 = "32 word"
type_synonym int64 = "64 word"
type_synonym bytes = "8 word list"

text \<open>
  A \<^verbatim>\<open>tl.Object\<close> is an interface value. Of its implementations the send path
  distinguishes \<^verbatim>\<open>*objects.Pong\<close> and \<^verbatim>\<open>*objects.MsgsAck\<close> and creates
  \<^verbatim>\<open>&objects.Null{}\<close>; every other kind is \<open>Object\<close> with the name of its type. The
  contents of an object are opaque bytes.
\<close>

datatype tl_Object = Pong bytes | MsgsAck bytes | Null | Object string bytes

text \<open>\<^verbatim>\<open>messages.Common\<close>: the two envelopes built by \<^verbatim>\<open>sendPacket\<close>.\<close>

datatype Common =
    Encrypted (Msg: bytes) (MsgID: int64) (AuthKeyHash: bytes)
  | Unencrypted (Msg: bytes) (MsgID: int64)

type_synonym reflect_Type = string

text \<open>
  Channels are shared objects: in service mode every pending request holds the one
  \<^verbatim>\<open>serviceChannel\<close>. A channel is therefore an address into a store. The store keeps
  for each channel the values sent on it so far, oldest first, and the number of receivers
  that wait on it. \<^verbatim>\<open>make(chan tl.Object)\<close> creates a channel without a buffer, so a
  send goes through only to a waiting receiver:
  \<^item> the statement \<^verbatim>\<open>v <- data\<close> hands the value to one of the waiting receivers, who
    then waits no longer; with no receiver waiting it blocks, and the function that
    executes it does not return;
  \<^item> \<^verbatim>\<open>go func() { resp <- v }()\<close> leaves the send to a goroutine of its own and goes
    on at once; the value is recorded as sent, and when a receiver takes it is between that
    goroutine and the receiver.
\<close>

type_synonym chan = nat

text \<open>
  The transport is an interface; the calls of \<^verbatim>\<open>WriteMsg\<close> it has received are
  its state.
\<close>

datatype Transport = Transport (written: "(Common \<times> bool \<times> int32) list")

datatype error =
    ErrMarshal string          \<comment> \<open>\<^verbatim>\<open>errors.Wrap(err, "marshaling request")\<close>\<close>
  | ErrTransportNil            \<comment> \<open>\<^verbatim>\<open>"transport is nil, please use SetTransport"\<close>\<close>
  | ErrWriteMsg string         \<comment> \<open>\<^verbatim>\<open>fmt.Errorf("writing message: %w", ...)\<close>\<close>
  | ErrNoResponseChannel int64 \<comment> \<open>\<^verbatim>\<open>"no response channel found for messageId ..."\<close>\<close>

text \<open>
  Modelled from the spec: the type of \<^verbatim>\<open>responseChannels\<close> and \<^verbatim>\<open>expectedTypes\<close>
  is declared outside the given sources, which use it only through \<^verbatim>\<open>Add\<close>,
  \<^verbatim>\<open>Get\<close> and \<^verbatim>\<open>Delete\<close>. The specification describes the two as the
  Pending-Request Table, a "mapping from message ID" to "a reply slot and an optional ordered
  set of expected decode-type hints". Each is therefore a map from message IDs: \<^verbatim>\<open>Add\<close>
  stores under a key, replacing what was there, \<^verbatim>\<open>Get\<close> looks a key up and
  \<^verbatim>\<open>Delete\<close> removes it.

  The other fields of \<^verbatim>\<open>MTProto\<close> are those that the send and receive paths read or
  write. \<open>chans\<close> and \<open>receivers\<close> are the channel store and \<open>next_chan\<close> is the
  next address that \<^verbatim>\<open>make(chan tl.Object)\<close> hands out.
\<close>

record MTProto =
  lastMessageID :: int64
  seqNo :: int32
  encrypted :: bool
  authKeyHash :: bytes
  serviceModeActivated :: bool
  serviceChannel :: chan
  transport :: "Transport option"
  responseChannels :: "int64 \<rightharpoonup> chan"
  expectedTypes :: "int64 \<rightharpoonup> reflect_Type list"
  chans :: "chan \<Rightarrow> tl_Object list"
  receivers :: "chan \<Rightarrow> nat"
  next_chan :: nat

text \<open>
  What \<^verbatim>\<open>sendPacket\<close> calls outside the given sources, as parameters of one call:
  the codec \<^verbatim>\<open>tl.Marshal\<close>, \<^verbatim>\<open>utils.GenerateMessageId\<close>, \<^verbatim>\<open>MessageRequireToAck\<close>,
  and the error, if any, with which the transport answers a \<^verbatim>\<open>WriteMsg\<close>. Nothing
  says that one of them answers the same way twice, so every call of a run comes with its
  own.
\<close>

record env =
  Marshal :: "tl_Object \<Rightarrow> string + bytes"
  GenerateMessageId :: "int64 \<Rightarrow> int64"
  MessageRequireToAck :: "tl_Object \<Rightarrow> bool"
  WriteMsg :: "Common \<Rightarrow> bool \<Rightarrow> int32 \<Rightarrow> string option"

text \<open>The send that a goroutine of its own carries out: \<^verbatim>\<open>go func() { c <- v }()\<close>.\<close>

definition chan_send :: "MTProto \<Rightarrow> chan \<Rightarrow> tl_Object \<Rightarrow> MTProto" where
  "chan_send m c v = m\<lparr>chans := (chans m)(c := chans m c @ [v])\<rparr>"

text \<open>The statement \<^verbatim>\<open>c <- v\<close>: \<open>None\<close> when it blocks, the store after the
  hand-over otherwise.\<close>

definition chan_send_blocking :: "MTProto \<Rightarrow> chan \<Rightarrow> tl_Object \<Rightarrow> MTProto option" where
  "chan_send_blocking m c v =
     (if receivers m c = 0 then None
      else Some (m\<lparr>chans := (chans m)(c := chans m c @ [v]),
                   receivers := (receivers m)(c := receivers m c - 1)\<rparr>))"

definition getRespChannel :: "MTProto \<Rightarrow> chan \<times> MTProto" where
  "getRespChannel m =
     (if serviceModeActivated m then (serviceChannel m, m)
      else (next_chan m, m\<lparr>next_chan := Suc (next_chan m)\<rparr>))"

fun isNullableResponse :: "tl_Object \<Rightarrow> bool" where
  "isNullableResponse (Pong _) = True"
| "isNullableResponse (MsgsAck _) = True"
| "isNullableResponse _ = False"

definition UpdateSeqNo :: "MTProto \<Rightarrow> int32 \<times> MTProto" where
  "UpdateSeqNo m = (let m' = m\<lparr>seqNo := seqNo m + 2\<rparr> in (seqNo m', m'))"

text \<open>
  \<^verbatim>\<open>sendPacket\<close>, statement by statement. The result is the pair of Go's return
  values (the error as \<open>Inl\<close>, the reply channel as \<open>Inr\<close>) and the session afterwards.
\<close>

definition sendPacket ::
  "env \<Rightarrow> MTProto \<Rightarrow> tl_Object \<Rightarrow> reflect_Type list \<Rightarrow> (error + chan) \<times> MTProto" where
  "sendPacket e m request types =
     (case Marshal e request of
        Inl err \<Rightarrow> (Inl (ErrMarshal err), m)
      | Inr msg \<Rightarrow>
          let msgID = GenerateMessageId e (lastMessageID m);
              m1 = m\<lparr>lastMessageID := msgID\<rparr>;
              m2 = (if length types > 0
                    then m1\<lparr>expectedTypes := (expectedTypes m1)(msgID \<mapsto> types)\<rparr>
                    else m1);
              (resp, m3) = getRespChannel m2;
              m4 = (if isNullableResponse request then chan_send m3 resp Null
                    else m3\<lparr>responseChannels := (responseChannels m3)(msgID \<mapsto> resp)\<rparr>);
              data = (if encrypted m4 then Encrypted msg msgID (authKeyHash m4)
                      else Unencrypted msg msgID);
              (seqNo0, m5) = UpdateSeqNo m4;
              seqNo1 = (if \<not> encrypted m5 then 0 else seqNo0)
          in (case transport m5 of
                None \<Rightarrow> (Inl ErrTransportNil, m5)
              | Some t \<Rightarrow>
                  let ack = MessageRequireToAck e request;
                      m6 = m5\<lparr>transport := Some (Transport (written t @ [(data, ack, seqNo1)]))\<rparr>
                  in (case WriteMsg e data ack seqNo1 of
                        Some werr \<Rightarrow> (Inl (ErrWriteMsg werr), m6)
                      | None \<Rightarrow> (Inr resp, m6))))"

text \<open>
  \<^verbatim>\<open>writeRPCResponse\<close>. The result is \<open>None\<close> when the call does not return, because
  its send blocks; otherwise it is Go's single \<^verbatim>\<open>error\<close> result (\<open>Some\<close> of the error,
  or \<open>None\<close> for \<^verbatim>\<open>nil\<close>) with the session afterwards. The two \<^verbatim>\<open>Delete\<close> calls come
  after the send and are not reached when it blocks.
\<close>

definition writeRPCResponse ::
  "MTProto \<Rightarrow> int64 \<Rightarrow> tl_Object \<Rightarrow> (error option \<times> MTProto) option" where
  "writeRPCResponse m msgID data =
     (case responseChannels m msgID of
        None \<Rightarrow> Some (Some (ErrNoResponseChannel msgID), m)
      | Some v \<Rightarrow>
          (case chan_send_blocking m v data of
             None \<Rightarrow> None
           | Some m1 \<Rightarrow>
               let m2 = m1\<lparr>responseChannels := (responseChannels m1)(msgID := None)\<rparr>;
                   m3 = m2\<lparr>expectedTypes := (expectedTypes m2)(msgID := None)\<rparr>
               in Some (None, m3)))"

text \<open>
  A run of the send path on one session: the calls in order, each with the environment it
  meets, the request and the type hints.
\<close>

type_synonym call = "env \<times> tl_Object \<times> reflect_Type list"

fun sendPackets :: "MTProto \<Rightarrow> call list \<Rightarrow> MTProto" where
  "sendPackets m [] = m"
| "sendPackets m ((e, request, types) # cs) =
     sendPackets (snd (sendPacket e m request types)) cs"

text \<open>The message IDs that a run generates and stores in \<^verbatim>\<open>lastMessageID\<close>, in order.
  A call whose request does not serialise returns before it generates one.\<close>

fun msgIDs :: "MTProto \<Rightarrow> call list \<Rightarrow> int64 list" where
  "msgIDs m [] = []"
| "msgIDs m ((e, request, types) # cs) =
     (let m' = snd (sendPacket e m request types)
      in (case Marshal e request of
            Inl err \<Rightarrow> msgIDs m' cs
          | Inr msg \<Rightarrow> lastMessageID m' # msgIDs m' cs))"

text \<open>The sequence numbers handed to the transport so far, oldest first.\<close>

definition wire_seqNos :: "MTProto \<Rightarrow> int32 list" where
  "wire_seqNos m =
     (case transport m of None \<Rightarrow> [] | Some t \<Rightarrow> map (\<lambda>(d, a, s). s) (written t))"

definition marshals :: "call \<Rightarrow> bool" where
  "marshals c = (case c of (e, request, types) \<Rightarrow>
     (case Marshal e request of Inl err \<Rightarrow> False | Inr msg \<Rightarrow> True))"

text \<open>
  Modelled from the spec: \<^verbatim>\<open>utils.GenerateMessageId\<close> is not among the given sources.
  The specification says of it that the send path "computes a new message ID strictly
  greater than the previous one". \<open>GenerateMessageId_increases m cs\<close> says that this
  holds of every call of the generator that the run \<open>cs\<close> makes from the session \<open>m\<close>:
  each time, the ID returned is greater, as a signed 64-bit number, than the previous ID
  passed in.
\<close>

fun GenerateMessageId_increases :: "MTProto \<Rightarrow> call list \<Rightarrow> bool" where
  "GenerateMessageId_increases m [] = True"
| "GenerateMessageId_increases m ((e, request, types) # cs) =
     ((case Marshal e request of
         Inl err \<Rightarrow> True
       | Inr msg \<Rightarrow> sint (lastMessageID m) < sint (GenerateMessageId e (lastMessageID m))) \<and>
      GenerateMessageId_increases (snd (sendPacket e m request types)) cs)"

text \<open>A concrete environment and a concrete session, for instances of the theorems: the
  codec accepts every request, the generator answers with the previous message ID plus 4,
  every request requires acknowledgment and the transport accepts every write. In the
  session one request, message 7, is pending, and its caller waits on channel 1.\<close>

definition env0 :: env where
  "env0 = \<lparr>Marshal = (\<lambda>r. Inr []), GenerateMessageId = (\<lambda>p. p + 4),
           MessageRequireToAck = (\<lambda>r. True), WriteMsg = (\<lambda>d a s. None)\<rparr>"

definition session0 :: MTProto where
  "session0 = \<lparr>lastMessageID = 0, seqNo = 0, encrypted = True, authKeyHash = [],
               serviceModeActivated = False, serviceChannel = 0,
               transport = Some (Transport []),
               responseChannels = [7 \<mapsto> 1], expectedTypes = [7 \<mapsto> [''ResPQ'']],
               chans = (\<lambda>c. []), receivers = (\<lambda>c. 0)(1 := 1), next_chan = 2\<rparr>"

text \<open>The same environment with a codec that rejects every request.\<close>

definition env1 :: env where
  "env1 = env0\<lparr>Marshal := (\<lambda>r. Inl ''unsupported type'')\<rparr>"

section \<open>Go's string and number conversions, as the cache uses them\<close>

text \<open>
  \<^verbatim>\<open>strings.HasPrefix\<close> and \<^verbatim>\<open>strings.TrimPrefix\<close> of the Go standard library.
\<close>

definition HasPrefix :: "string \<Rightarrow> string \<Rightarrow> bool" where
  "HasPrefix s p = (length p \<le> length s \<and> take (length p) s = p)"

definition TrimPrefix :: "string \<Rightarrow> string \<Rightarrow> string" where
  "TrimPrefix s p = (if HasPrefix s p then drop (length p) s else s)"

text \<open>
  \<^verbatim>\<open>strconv.Itoa\<close>: the decimal digits, most significant first, after a minus sign for
  a negative number. \<open>FormatUint\<close> is the digit loop on the magnitude.
\<close>

text \<open>The digit \<open>d\<close>, for \<open>d\<close> below 10; \<open>FormatUint\<close> asks for no other.\<close>

definition digit_char :: "nat \<Rightarrow> char" where
  "digit_char d = ''0123456789'' ! d"

fun FormatUint :: "nat \<Rightarrow> string" where
  "FormatUint n = (if n < 10 then [digit_char n] else FormatUint (n div 10) @ [digit_char (n mod 10)])"

declare FormatUint.simps [simp del]

definition Itoa :: "int \<Rightarrow> string" where
  "Itoa i = (if i < 0 then CHR ''-'' # FormatUint (nat (- i)) else FormatUint (nat i))"

text \<open>
  \<^verbatim>\<open>strconv.Atoi\<close>, which on a 64-bit platform is \<^verbatim>\<open>strconv.ParseInt(s, 10, 64)\<close>:
  an optional sign, then at least one digit and nothing but digits (a syntax error
  otherwise), and a range error when the number does not fit 64 bits.
\<close>

datatype NumError = ErrSyntax | ErrRange

definition is_digit :: "char \<Rightarrow> bool" where
  "is_digit c = (48 \<le> (of_char c :: nat) \<and> (of_char c :: nat) \<le> 57)"

definition digit_val :: "char \<Rightarrow> nat" where
  "digit_val c = of_char c - 48"

definition digits_value :: "string \<Rightarrow> nat" where
  "digits_value ds = foldl (\<lambda>n c. n * 10 + digit_val c) 0 ds"

definition Atoi :: "string \<Rightarrow> NumError + int" where
  "Atoi s =
     (case s of
        [] \<Rightarrow> Inl ErrSyntax
      | c # cs \<Rightarrow>
          let ds = (if c = CHR ''-'' \<or> c = CHR ''+'' then cs else s)
          in if ds = [] \<or> \<not> list_all is_digit ds then Inl ErrSyntax
             else let n = (if c = CHR ''-'' then - int (digits_value ds)
                           else int (digits_value ds))
                  in if n < - (2 ^ 63) \<or> 2 ^ 63 - 1 < n then Inl ErrRange else Inr n)"

section \<open>The entity cache (telegram/cache.go)\<close>

text \<open>
  The protocol objects are generated types outside the given sources. The cache reads the
  \<^verbatim>\<open>ID\<close> and the \<^verbatim>\<open>AccessHash\<close> of a user and of a channel and the \<^verbatim>\<open>ID\<close> of a
  chat; all other fields of an object are its \<open>Fields\<close>, opaque. \<^verbatim>\<open>User\<close> and
  \<^verbatim>\<open>Chat\<close> are interfaces; the cache asserts the kinds \<^verbatim>\<open>*UserObj\<close>, \<^verbatim>\<open>*ChatObj\<close>
  and \<^verbatim>\<open>*Channel\<close>, and every other kind is one further constructor.
\<close>

record UserObj =
  UserObj_ID :: int64
  UserObj_AccessHash :: int64
  UserObj_Fields :: bytes

record Channel =
  Channel_ID :: int64
  Channel_AccessHash :: int64
  Channel_Fields :: bytes

record ChatObj =
  ChatObj_ID :: int64
  ChatObj_Fields :: bytes

datatype User = User_UserObj UserObj | User_other
datatype Chat = Chat_ChatObj ChatObj | Chat_Channel Channel | Chat_other
datatype MessagesChats = MessagesChatsObj "Chat list" | MessagesChats_other

datatype InputUser = InputUserObj int64 int64
datatype InputChannel = InputChannelObj int64 int64
datatype InputPeer =
    InputPeerUser int64 int64
  | InputPeerChat int64
  | InputPeerChannel int64 int64

record InputPeerCache =
  InputChannels :: "int64 \<rightharpoonup> int64"
  InputUsers :: "int64 \<rightharpoonup> int64"
  InputChats :: "int64 \<rightharpoonup> int64"

record CACHE =
  chats :: "int64 \<rightharpoonup> ChatObj"
  users :: "int64 \<rightharpoonup> UserObj"
  channels :: "int64 \<rightharpoonup> Channel"
  InputPeers :: InputPeerCache

datatype cache_error =
    ErrNoUserPeer int64    \<comment> \<open>\<^verbatim>\<open>"no user with id %d or missing from cache"\<close>\<close>
  | ErrNoChannel int64     \<comment> \<open>\<^verbatim>\<open>"no channel with id %d or missing from cache"\<close>\<close>
  | ErrNoChat int64        \<comment> \<open>\<^verbatim>\<open>"no chat with id %d or missing from cache"\<close>\<close>
  | ErrNoPeer int64        \<comment> \<open>\<^verbatim>\<open>"there is no peer with id %d or missing from cache"\<close>\<close>
  | ErrNoUser int64        \<comment> \<open>\<^verbatim>\<open>"no user with id %d"\<close>\<close>
  | ErrAtoi NumError       \<comment> \<open>the error of \<^verbatim>\<open>strconv.Atoi\<close>, returned as it is\<close>
  | ErrRequest string      \<comment> \<open>the error of a delegated request, returned as it is\<close>

definition NewCache :: CACHE where
  "NewCache = \<lparr>chats = Map.empty, users = Map.empty, channels = Map.empty,
               InputPeers = \<lparr>InputChannels = Map.empty, InputUsers = Map.empty,
                             InputChats = Map.empty\<rparr>\<rparr>"

text \<open>
  Go leaves the order in which a \<^verbatim>\<open>range\<close> loop visits the keys of a map unspecified.
  The order is therefore an argument: for each of the six maps, the list of keys in the
  order in which the next loop over that map visits them. \<open>enumerates\<close> says that each
  list holds exactly the keys of its map, each once.
\<close>

record range_order =
  ord_chats :: "int64 list"
  ord_users :: "int64 list"
  ord_channels :: "int64 list"
  ord_InputChannels :: "int64 list"
  ord_InputUsers :: "int64 list"
  ord_InputChats :: "int64 list"

definition enumerates :: "range_order \<Rightarrow> CACHE \<Rightarrow> bool" where
  "enumerates ro c =
     (distinct (ord_chats ro) \<and> set (ord_chats ro) = dom (chats c) \<and>
      distinct (ord_users ro) \<and> set (ord_users ro) = dom (users c) \<and>
      distinct (ord_channels ro) \<and> set (ord_channels ro) = dom (channels c) \<and>
      distinct (ord_InputChannels ro) \<and>
        set (ord_InputChannels ro) = dom (InputChannels (InputPeers c)) \<and>
      distinct (ord_InputUsers ro) \<and> set (ord_InputUsers ro) = dom (InputUsers (InputPeers c)) \<and>
      distinct (ord_InputChats ro) \<and> set (ord_InputChats ro) = dom (InputChats (InputPeers c)))"

text \<open>
  A \<^verbatim>\<open>range\<close> loop whose body either returns from the function (\<open>Some\<close> of the
  result) or falls through to the next entry (\<open>None\<close>); \<open>None\<close> when the loop ends
  without a return.
\<close>

fun range_first :: "'k list \<Rightarrow> ('k \<rightharpoonup> 'v) \<Rightarrow> ('k \<Rightarrow> 'v \<Rightarrow> 'r option) \<Rightarrow> 'r option" where
  "range_first [] m body = None"
| "range_first (k # ks) m body =
     (case m k of
        None \<Rightarrow> range_first ks m body
      | Some v \<Rightarrow> (case body k v of Some r \<Rightarrow> Some r | None \<Rightarrow> range_first ks m body))"

definition getUserPeer :: "range_order \<Rightarrow> CACHE \<Rightarrow> int64 \<Rightarrow> cache_error + InputUser" where
  "getUserPeer ro c userID =
     (case range_first (ord_InputUsers ro) (InputUsers (InputPeers c))
             (\<lambda>userId accessHash.
                if userId = userID then Some (InputUserObj userId accessHash) else None) of
        Some r \<Rightarrow> Inr r
      | None \<Rightarrow> Inl (ErrNoUserPeer userID))"

definition getChannelPeer :: "range_order \<Rightarrow> CACHE \<Rightarrow> int64 \<Rightarrow> cache_error + InputChannel" where
  "getChannelPeer ro c channelID =
     (case range_first (ord_InputChannels ro) (InputChannels (InputPeers c))
             (\<lambda>channelId channelHash.
                if channelId = channelID then Some (InputChannelObj channelId channelHash)
                else None) of
        Some r \<Rightarrow> Inr r
      | None \<Rightarrow> Inl (ErrNoChannel channelID))"

definition GetInputPeer :: "range_order \<Rightarrow> CACHE \<Rightarrow> int64 \<Rightarrow> cache_error + InputPeer" where
  "GetInputPeer ro c peerID0 =
     (case (if HasPrefix (Itoa (sint peerID0)) ''-100''
            then (let peerIdStr = TrimPrefix (Itoa (sint peerID0)) ''-100''
                  in case Atoi peerIdStr of
                       Inl err \<Rightarrow> Inl (ErrAtoi err)
                     | Inr peerIdInt \<Rightarrow> Inr (word_of_int peerIdInt))
            else Inr peerID0) of
        Inl err \<Rightarrow> Inl err
      | Inr peerID \<Rightarrow>
          (case range_first (ord_InputUsers ro) (InputUsers (InputPeers c))
                  (\<lambda>userId userHash.
                     if userId = peerID then Some (InputPeerUser userId userHash) else None) of
             Some r \<Rightarrow> Inr r
           | None \<Rightarrow>
          (case range_first (ord_InputChats ro) (InputChats (InputPeers c))
                  (\<lambda>chatId v. if chatId = peerID then Some (InputPeerChat chatId) else None) of
             Some r \<Rightarrow> Inr r
           | None \<Rightarrow>
          (case range_first (ord_InputChannels ro) (InputChannels (InputPeers c))
                  (\<lambda>channelId channelHash.
                     if channelId = peerID then Some (InputPeerChannel channelId channelHash)
                     else None) of
             Some r \<Rightarrow> Inr r
           | None \<Rightarrow> Inl (ErrNoPeer peerID)))))"

text \<open>
  The delegated requests \<^verbatim>\<open>UsersGetUsers\<close>, \<^verbatim>\<open>ChannelsGetChannels\<close> and
  \<^verbatim>\<open>MessagesGetChats\<close> go through the protocol layer to the server. Their answers are
  parameters; the requests that a lookup issues are returned with its result, in order.
\<close>

record rpc =
  UsersGetUsers :: "InputUser list \<Rightarrow> string + User list"
  ChannelsGetChannels :: "InputChannel list \<Rightarrow> string + MessagesChats"
  MessagesGetChats :: "int64 list \<Rightarrow> string + MessagesChats"

datatype request =
    Req_UsersGetUsers "InputUser list"
  | Req_ChannelsGetChannels "InputChannel list"
  | Req_MessagesGetChats "int64 list"

definition getUserFromCache ::
  "rpc \<Rightarrow> range_order \<Rightarrow> CACHE \<Rightarrow> int64 \<Rightarrow> (cache_error + UserObj) \<times> request list" where
  "getUserFromCache r ro c userID =
     (case range_first (ord_users ro) (users c)
             (\<lambda>k user. if UserObj_ID user = userID then Some user else None) of
        Some user \<Rightarrow> (Inr user, [])
      | None \<Rightarrow>
          (case getUserPeer ro c userID of
             Inl err \<Rightarrow> (Inl err, [])
           | Inr userPeer \<Rightarrow>
               (case UsersGetUsers r [userPeer] of
                  Inl err \<Rightarrow> (Inl (ErrRequest err), [Req_UsersGetUsers [userPeer]])
                | Inr [] \<Rightarrow> (Inl (ErrNoUser userID), [Req_UsersGetUsers [userPeer]])
                | Inr (User_UserObj user # us) \<Rightarrow> (Inr user, [Req_UsersGetUsers [userPeer]])
                | Inr (User_other # us) \<Rightarrow>
                    (Inl (ErrNoUser userID), [Req_UsersGetUsers [userPeer]]))))"

definition getChannelFromCache ::
  "rpc \<Rightarrow> range_order \<Rightarrow> CACHE \<Rightarrow> int64 \<Rightarrow> (cache_error + Channel) \<times> request list" where
  "getChannelFromCache r ro c channelID =
     (case range_first (ord_channels ro) (channels c)
             (\<lambda>k channel. if Channel_ID channel = channelID then Some channel else None) of
        Some channel \<Rightarrow> (Inr channel, [])
      | None \<Rightarrow>
          (case getChannelPeer ro c channelID of
             Inl err \<Rightarrow> (Inl err, [])
           | Inr channelPeer \<Rightarrow>
               (case ChannelsGetChannels r [channelPeer] of
                  Inl err \<Rightarrow> (Inl (ErrRequest err), [Req_ChannelsGetChannels [channelPeer]])
                | Inr (MessagesChatsObj (Chat_Channel channel # cs)) \<Rightarrow>
                    (Inr channel, [Req_ChannelsGetChannels [channelPeer]])
                | Inr other \<Rightarrow>
                    (Inl (ErrNoChannel channelID), [Req_ChannelsGetChannels [channelPeer]]))))"

definition getChatFromCache ::
  "rpc \<Rightarrow> range_order \<Rightarrow> CACHE \<Rightarrow> int64 \<Rightarrow> (cache_error + ChatObj) \<times> request list" where
  "getChatFromCache r ro c chatID =
     (case range_first (ord_chats ro) (chats c)
             (\<lambda>k chat. if ChatObj_ID chat = chatID then Some chat else None) of
        Some chat \<Rightarrow> (Inr chat, [])
      | None \<Rightarrow>
          (case MessagesGetChats r [chatID] of
             Inl err \<Rightarrow> (Inl (ErrRequest err), [Req_MessagesGetChats [chatID]])
           | Inr (MessagesChatsObj (Chat_ChatObj chatObj # cs)) \<Rightarrow>
               (Inr chatObj, [Req_MessagesGetChats [chatID]])
           | Inr other \<Rightarrow> (Inl (ErrNoChat chatID), [Req_MessagesGetChats [chatID]])))"

definition UpdateUser :: "CACHE \<Rightarrow> UserObj \<Rightarrow> CACHE" where
  "UpdateUser c user =
     c\<lparr>users := (users c)(UserObj_ID user \<mapsto> user),
       InputPeers := (InputPeers c)
         \<lparr>InputUsers := (InputUsers (InputPeers c))(UserObj_ID user \<mapsto> UserObj_AccessHash user)\<rparr>\<rparr>"

definition UpdateChannel :: "CACHE \<Rightarrow> Channel \<Rightarrow> CACHE" where
  "UpdateChannel c channel =
     c\<lparr>channels := (channels c)(Channel_ID channel \<mapsto> channel),
       InputPeers := (InputPeers c)
         \<lparr>InputChannels :=
            (InputChannels (InputPeers c))(Channel_ID channel \<mapsto> Channel_AccessHash channel)\<rparr>\<rparr>"

definition UpdateChat :: "CACHE \<Rightarrow> ChatObj \<Rightarrow> CACHE" where
  "UpdateChat c chat =
     c\<lparr>chats := (chats c)(ChatObj_ID chat \<mapsto> chat),
       InputPeers := (InputPeers c)
         \<lparr>InputChats := (InputChats (InputPeers c))(ChatObj_ID chat \<mapsto> ChatObj_ID chat)\<rparr>\<rparr>"

text \<open>
  \<^verbatim>\<open>UpdateUser\<close> is the only statement of the package that writes the map
  \<^verbatim>\<open>users\<close>, so every record in it is stored under its own ID.
\<close>

definition users_keyed_by_ID :: "CACHE \<Rightarrow> bool" where
  "users_keyed_by_ID c = (\<forall>k user. users c k = Some user \<longrightarrow> UserObj_ID user = k)"

section \<open>Export and import of the peer-handle index\<close>

text \<open>
  \<^verbatim>\<open>ExportJSON\<close> and \<^verbatim>\<open>ImportJSON\<close> hand \<^verbatim>\<open>c.InputPeers\<close> to
  \<^verbatim>\<open>json.Marshal\<close> and \<^verbatim>\<open>json.Unmarshal\<close> of the Go standard library. The bytes
  are modelled by the JSON document they spell, and of all documents by those of the shape
  that \<^verbatim>\<open>json.Marshal\<close> gives an \<^verbatim>\<open>InputPeerCache\<close>: an object whose members are
  objects whose members are integers. The members of an object are a list, in the order of
  the text. \<^verbatim>\<open>c.InputPeers\<close> is not \<^verbatim>\<open>nil\<close>, as \<^verbatim>\<open>NewCache\<close> makes it.
\<close>

type_synonym json_map = "(string \<times> int) list"
type_synonym json_doc = "(string \<times> json_map) list"

text \<open>
  \<^verbatim>\<open>json.Marshal\<close> of a \<^verbatim>\<open>map[int64]int64\<close>: one member for each entry, the key in
  decimal as the member's name. Go writes the members sorted by name; here they come in
  the order of the enumeration given, which may be that one or any other.
\<close>

definition marshal_map :: "int64 list \<Rightarrow> (int64 \<rightharpoonup> int64) \<Rightarrow> json_map" where
  "marshal_map ks m =
     List.map_filter (\<lambda>k. map_option (\<lambda>v. (Itoa (sint k), sint v)) (m k)) ks"

text \<open>
  The struct: its fields in the order of their declaration, under the names of their
  tags; \<^verbatim>\<open>omitempty\<close> leaves a map with no entry out.
\<close>

definition marshal_InputPeerCache :: "range_order \<Rightarrow> InputPeerCache \<Rightarrow> json_doc" where
  "marshal_InputPeerCache ro ip =
     (if ord_InputChannels ro = [] then []
      else [(''channels'', marshal_map (ord_InputChannels ro) (InputChannels ip))]) @
     (if ord_InputUsers ro = [] then []
      else [(''users'', marshal_map (ord_InputUsers ro) (InputUsers ip))]) @
     (if ord_InputChats ro = [] then []
      else [(''chats'', marshal_map (ord_InputChats ro) (InputChats ip))])"

definition ExportJSON :: "range_order \<Rightarrow> CACHE \<Rightarrow> json_doc" where
  "ExportJSON ro c = marshal_InputPeerCache ro (InputPeers c)"

text \<open>
  \<^verbatim>\<open>json.Unmarshal\<close> into a \<^verbatim>\<open>map[int64]int64\<close> keeps the map it finds and stores
  the members into it one after the other. A value that does not fit \<^verbatim>\<open>int64\<close> is a
  type error and leaves the element zero; a name that \<^verbatim>\<open>strconv.ParseInt\<close> rejects is a
  type error and its member is not stored. Decoding goes on after a type error; the
  boolean says whether there was one.
\<close>

fun unmarshal_map :: "json_map \<Rightarrow> (int64 \<rightharpoonup> int64) \<Rightarrow> bool \<times> (int64 \<rightharpoonup> int64)" where
  "unmarshal_map [] m = (False, m)"
| "unmarshal_map ((key, n) # kvs) m =
     (let overflow = (n < - (2 ^ 63) \<or> 2 ^ 63 - 1 < n);
          v = (if overflow then 0 else word_of_int n)
      in (case Atoi key of
            Inl err \<Rightarrow> (True, snd (unmarshal_map kvs m))
          | Inr k \<Rightarrow>
              (let rest = unmarshal_map kvs (m(word_of_int k \<mapsto> v))
               in (overflow \<or> fst rest, snd rest))))"

text \<open>
  The struct: a member goes to the field whose tag is its name, upper and lower case
  letters of ASCII taken as equal; a member with any other name is skipped, and a field
  without a member keeps its map.
\<close>

definition to_lower :: "char \<Rightarrow> char" where
  "to_lower c =
     (case map_of (zip ''ABCDEFGHIJKLMNOPQRSTUVWXYZ'' ''abcdefghijklmnopqrstuvwxyz'') c of
        Some l \<Rightarrow> l
      | None \<Rightarrow> c)"

fun unmarshal_InputPeerCache :: "json_doc \<Rightarrow> InputPeerCache \<Rightarrow> bool \<times> InputPeerCache" where
  "unmarshal_InputPeerCache [] ip = (False, ip)"
| "unmarshal_InputPeerCache ((name, obj) # ms) ip =
     (let field = map to_lower name;
          (e, ip') =
            (if field = ''channels''
             then (fst (unmarshal_map obj (InputChannels ip)),
                   ip\<lparr>InputChannels := snd (unmarshal_map obj (InputChannels ip))\<rparr>)
             else if field = ''users''
             then (fst (unmarshal_map obj (InputUsers ip)),
                   ip\<lparr>InputUsers := snd (unmarshal_map obj (InputUsers ip))\<rparr>)
             else if field = ''chats''
             then (fst (unmarshal_map obj (InputChats ip)),
                   ip\<lparr>InputChats := snd (unmarshal_map obj (InputChats ip))\<rparr>)
             else (False, ip));
          rest = unmarshal_InputPeerCache ms ip'
      in (e \<or> fst rest, snd rest))"

datatype json_error = UnmarshalTypeError

definition ImportJSON :: "json_doc \<Rightarrow> CACHE \<Rightarrow> json_error option \<times> CACHE" where
  "ImportJSON data c =
     (let r = unmarshal_InputPeerCache data (InputPeers c)
      in (if fst r then Some UnmarshalTypeError else None, c\<lparr>InputPeers := snd r\<rparr>))"

text \<open>A concrete cache, its enumeration and concrete answers of the server, for instances
  of the theorems.\<close>

definition cache0 :: CACHE where
  "cache0 = \<lparr>chats = Map.empty, users = Map.empty, channels = Map.empty,
             InputPeers = \<lparr>InputChannels = [5 \<mapsto> 77, 3 \<mapsto> 8], InputUsers = [9 \<mapsto> 11],
                           InputChats = [3 \<mapsto> 3, 9 \<mapsto> 9]\<rparr>\<rparr>"

definition order0 :: range_order where
  "order0 = \<lparr>ord_chats = [], ord_users = [], ord_channels = [],
             ord_InputChannels = [5, 3], ord_InputUsers = [9], ord_InputChats = [9, 3]\<rparr>"

definition rpc0 :: rpc where
  "rpc0 = \<lparr>UsersGetUsers = (\<lambda>us. Inr []),
           ChannelsGetChannels = (\<lambda>cs. Inr (MessagesChatsObj [])),
           MessagesGetChats =
             (\<lambda>ids. Inr (MessagesChatsObj [Chat_ChatObj \<lparr>ChatObj_ID = 4, ChatObj_Fields = []\<rparr>]))\<rparr>"

definition order2 :: range_order where
  "order2 = \<lparr>ord_chats = [], ord_users = [- 1005], ord_channels = [],
             ord_InputChannels = [], ord_InputUsers = [- 1005], ord_InputChats = []\<rparr>"

definition order1 :: range_order where
  "order1 = \<lparr>ord_chats = [], ord_users = [9], ord_channels = [],
             ord_InputChannels = [], ord_InputUsers = [9], ord_InputChats = []\<rparr>"

section \<open>One call of the send path\<close>

text \<open>What a call of \<^verbatim>\<open>sendPacket\<close> returns and what it leaves in each field of the
  session, when the request serialises and when it does not.\<close>

lemmas sendPacket_unfold =
  sendPacket_def Let_def getRespChannel_def UpdateSeqNo_def chan_send_def

lemma sendPacket_Inl: "Marshal e request = Inl err \<Longrightarrow> sendPacket e m request types = (Inl (ErrMarshal err), m)"
  by (simp add: sendPacket_def)

lemma sendPacket_seqNo:
  "Marshal e request = Inr msg \<Longrightarrow> seqNo (snd (sendPacket e m request types)) = seqNo m + 2"
  by (simp add: sendPacket_def Let_def getRespChannel_def UpdateSeqNo_def chan_send_def
      split: option.split prod.split)

lemma sendPacket_encrypted:
  "encrypted (snd (sendPacket e m request types)) = encrypted m"
  by (simp add: sendPacket_def Let_def getRespChannel_def UpdateSeqNo_def chan_send_def
      split: option.split prod.split sum.split)

lemma sendPacket_lastMessageID:
  "Marshal e request = Inr msg \<Longrightarrow>
   lastMessageID (snd (sendPacket e m request types)) = GenerateMessageId e (lastMessageID m)"
  by (simp add: sendPacket_def Let_def getRespChannel_def UpdateSeqNo_def chan_send_def
      split: option.split prod.split)

lemma sendPacket_transport_None:
  "transport m = None \<Longrightarrow> transport (snd (sendPacket e m request types)) = None"
  by (simp add: sendPacket_def Let_def getRespChannel_def UpdateSeqNo_def chan_send_def
      split: option.split prod.split sum.split)

lemma sendPacket_wire:
  "Marshal e request = Inr msg \<Longrightarrow> transport m \<noteq> None \<Longrightarrow>
   transport (snd (sendPacket e m request types)) \<noteq> None \<and>
   wire_seqNos (snd (sendPacket e m request types)) =
     wire_seqNos m @ [if encrypted m then seqNo m + 2 else 0]"
  by (auto simp add: sendPacket_def Let_def getRespChannel_def UpdateSeqNo_def chan_send_def wire_seqNos_def
      split: option.split prod.split)

lemma sendPacket_responseChannels:
  "Marshal e request = Inr msg \<Longrightarrow>
   responseChannels (snd (sendPacket e m request types)) =
     (if isNullableResponse request then responseChannels m
      else (responseChannels m)(GenerateMessageId e (lastMessageID m) \<mapsto> fst (getRespChannel m)))"
  by (simp add: sendPacket_def Let_def getRespChannel_def UpdateSeqNo_def chan_send_def
      split: option.split prod.split)

lemma sendPacket_expectedTypes:
  "Marshal e request = Inr msg \<Longrightarrow>
   expectedTypes (snd (sendPacket e m request types)) =
     (if types \<noteq> [] then (expectedTypes m)(GenerateMessageId e (lastMessageID m) \<mapsto> types)
      else expectedTypes m)"
  by (simp add: sendPacket_def Let_def getRespChannel_def UpdateSeqNo_def chan_send_def
      split: option.split prod.split)

lemma sendPacket_chans:
  "Marshal e request = Inr msg \<Longrightarrow>
   chans (snd (sendPacket e m request types)) =
     (if isNullableResponse request
      then (chans m)(fst (getRespChannel m) := chans m (fst (getRespChannel m)) @ [Null])
      else chans m)"
  by (simp add: sendPacket_def Let_def getRespChannel_def UpdateSeqNo_def chan_send_def
      split: option.split prod.split)

lemma sendPacket_result:
  "Marshal e request = Inr msg \<Longrightarrow>
   fst (sendPacket e m request types) =
     (case transport m of None \<Rightarrow> Inl ErrTransportNil
      | Some t \<Rightarrow>
         (case WriteMsg e (if encrypted m then Encrypted msg (GenerateMessageId e (lastMessageID m)) (authKeyHash m)
                      else Unencrypted msg (GenerateMessageId e (lastMessageID m)))
                 (MessageRequireToAck e request) (if encrypted m then seqNo m + 2 else 0) of
            Some werr \<Rightarrow> Inl (ErrWriteMsg werr)
          | None \<Rightarrow> Inr (fst (getRespChannel m))))"
  by (simp add: sendPacket_def Let_def getRespChannel_def UpdateSeqNo_def chan_send_def
      split: option.split prod.split)

lemma isNullableResponse_iff:
  "isNullableResponse request = (\<exists>b. request = Pong b \<or> request = MsgsAck b)"
  by (cases request) auto

lemma marshals_Cons:
  "marshals (e, request, types) \<Longrightarrow> \<exists>msg. Marshal e request = Inr msg"
  by (auto simp: marshals_def split: sum.splits)

lemma sendPackets_seqNo:
  "list_all marshals calls \<Longrightarrow>
   seqNo (sendPackets m calls) = seqNo m + 2 * of_nat (length calls)"
proof (induction calls arbitrary: m)
  case Nil
  show ?case by simp
next
  case (Cons c cs)
  obtain e request types where c: "c = (e, request, types)" by (cases c)
  from Cons.prems c have "marshals (e, request, types)" by simp
  then obtain msg where msg: "Marshal e request = Inr msg"
    by (blast dest: marshals_Cons)
  from Cons.prems have "list_all marshals cs" by simp
  from Cons.IH [OF this] show ?case
    by (simp add: c sendPacket_seqNo [OF msg] algebra_simps)
qed

lemma sint_word_of_int_32:
  "- (2 ^ 31) \<le> k \<Longrightarrow> k < 2 ^ 31 \<Longrightarrow> sint (word_of_int k :: int32) = k"
  by (simp add: signed_of_int signed_take_bit_int_eq_self)

lemma sint_plus_in_range:
  fixes a :: int32
  assumes "sint a + 2 * int n < 2 ^ 31"
  shows "sint (a + 2 * of_nat n) = sint a + 2 * int n"
proof -
  have lo: "- (2 ^ 31) \<le> sint a + 2 * int n" using sint_ge [of a] by simp
  have eq: "word_of_int (sint a + 2 * int n) = a + 2 * of_nat n"
    by simp
  show ?thesis
    using sint_word_of_int_32 [OF lo assms] unfolding eq .
qed

lemma upt_from_1: "[1..<Suc (Suc n)] = 1 # map Suc [1..<Suc n]"
  by (metis One_nat_def map_Suc_upt upt_conv_Cons zero_less_Suc Suc_less_eq)

lemma sendPackets_wire:
  "list_all marshals calls \<Longrightarrow> transport m \<noteq> None \<Longrightarrow>
   wire_seqNos (sendPackets m calls) =
     wire_seqNos m @
     (if encrypted m then map (\<lambda>k. seqNo m + 2 * of_nat k) [1..<Suc (length calls)]
      else replicate (length calls) 0)"
proof (induction calls arbitrary: m)
  case Nil
  show ?case by simp
next
  case (Cons c cs)
  obtain e request types where c: "c = (e, request, types)" by (cases c)
  from Cons.prems c have "marshals (e, request, types)" by simp
  then obtain msg where msg: "Marshal e request = Inr msg"
    by (blast dest: marshals_Cons)
  let ?m' = "snd (sendPacket e m request types)"
  from Cons.prems have cs: "list_all marshals cs" by simp
  from sendPacket_wire [OF msg Cons.prems(2)]
  have t: "transport ?m' \<noteq> None"
    and w: "wire_seqNos ?m' = wire_seqNos m @ [if encrypted m then seqNo m + 2 else 0]"
    by simp_all
  have s: "seqNo ?m' = seqNo m + 2" by (rule sendPacket_seqNo [OF msg])
  have en: "encrypted ?m' = encrypted m" by (rule sendPacket_encrypted)
  have "map (\<lambda>k. seqNo m + 2 * of_nat k) [1..<Suc (Suc (length cs))] =
        (seqNo m + 2) # map (\<lambda>k. seqNo m + 2 + 2 * of_nat k) [1..<Suc (length cs)]"
    unfolding upt_from_1 by (simp add: comp_def algebra_simps)
  with Cons.IH [OF cs t] w s en show ?case
    by (simp add: c replicate_append_same)
qed

lemma msgIDs_above:
  "GenerateMessageId_increases m calls \<Longrightarrow>
   sorted_wrt (<) (map sint (lastMessageID m # msgIDs m calls)) \<and>
   lastMessageID (sendPackets m calls) = last (lastMessageID m # msgIDs m calls)"
proof (induction calls arbitrary: m)
  case Nil
  show ?case by simp
next
  case (Cons c cs)
  obtain e request types where c: "c = (e, request, types)" by (cases c)
  let ?m' = "snd (sendPacket e m request types)"
  from Cons.prems c have inc: "GenerateMessageId_increases ?m' cs" by simp
  note IH = Cons.IH [OF inc]
  show ?case
  proof (cases "Marshal e request")
    case (Inl err)
    then have "?m' = m" by (simp add: sendPacket_Inl)
    with IH Inl show ?thesis by (simp add: c)
  next
    case (Inr msg)
    have l: "lastMessageID ?m' = GenerateMessageId e (lastMessageID m)"
      by (rule sendPacket_lastMessageID [OF Inr])
    from Cons.prems c Inr
    have lt: "sint (lastMessageID m) < sint (GenerateMessageId e (lastMessageID m))" by simp
    from IH l lt Inr show ?thesis
      by (auto simp add: c Let_def)
  qed
qed

section \<open>Sequence numbers\<close>

text \<open>
  C1, as the code has it. Take any run of \<open>N\<close> calls of \<^verbatim>\<open>sendPacket\<close> on one session
  whose requests all serialise, from the counter value \<open>seqNo m\<close>. The counter ends at
  \<open>seqNo m + 2 * N\<close>, in the wrapping arithmetic of \<^verbatim>\<open>int32\<close> (which is ordinary
  arithmetic as long as the sum stays below \<open>2 ^ 31\<close>): every call advances it by 2,
  whether the request requires acknowledgment or not and whether the session is encrypted
  or not. If a transport is set, the sequence numbers handed to it are
  \<open>seqNo m + 2, seqNo m + 4, \<dots>, seqNo m + 2 * N\<close> on an encrypted session and \<open>0\<close> each
  time on a plaintext one.
\<close>

theorem seqNo_of_a_run:
  assumes "list_all marshals calls"
  shows "seqNo (sendPackets m calls) = seqNo m + 2 * of_nat (length calls) \<and>
         (sint (seqNo m) + 2 * int (length calls) < 2 ^ 31 \<longrightarrow>
            sint (seqNo (sendPackets m calls)) = sint (seqNo m) + 2 * int (length calls)) \<and>
         (transport m \<noteq> None \<longrightarrow>
            wire_seqNos (sendPackets m calls) =
              wire_seqNos m @
              (if encrypted m then map (\<lambda>k. seqNo m + 2 * of_nat k) [1..<Suc (length calls)]
               else replicate (length calls) 0))"
  using assms by (simp add: sendPackets_seqNo sendPackets_wire sint_plus_in_range)

theorem seqNo_of_a_run_witness:
  "list_all marshals [(env0, Object ''ping'' [], []), (env0, Pong [], [])] \<and>
   seqNo (sendPackets session0 [(env0, Object ''ping'' [], []), (env0, Pong [], [])]) = 4 \<and>
   wire_seqNos (sendPackets session0 [(env0, Object ''ping'' [], []), (env0, Pong [], [])])
     = [2, 4] \<and>
   seqNo (sendPackets (session0\<lparr>encrypted := False\<rparr>)
            [(env0, Object ''ping'' [], []), (env0, Pong [], [])]) = 4 \<and>
   wire_seqNos (sendPackets (session0\<lparr>encrypted := False\<rparr>)
            [(env0, Object ''ping'' [], []), (env0, Pong [], [])]) = [0, 0]"
proof -
  have h: "list_all marshals [(env0, Object ''ping'' [], []), (env0, Pong [], [])]"
    by (simp add: marshals_def env0_def)
  have u: "[1..<Suc (Suc (Suc 0))] = [1, 2]" by (simp add: upt_rec)
  show ?thesis
    using h seqNo_of_a_run [OF h, of session0]
      seqNo_of_a_run [OF h, of "session0\<lparr>encrypted := False\<rparr>"]
    by (simp add: session0_def wire_seqNos_def u)
qed

text \<open>
  C1, as the specification has it, fails in its second half: a plaintext message goes out
  with sequence number 0, but the counter does not stay where it was. From 0 it is 2 after
  one plaintext \<^verbatim>\<open>sendPacket\<close>.
\<close>

theorem plaintext_seqNo_counterexample:
  "seqNo (session0\<lparr>encrypted := False\<rparr>) = 0 \<and>
   seqNo (snd (sendPacket env0 (session0\<lparr>encrypted := False\<rparr>) (Object ''req_pq'' []) [])) = 2 \<and>
   wire_seqNos (snd (sendPacket env0 (session0\<lparr>encrypted := False\<rparr>) (Object ''req_pq'' []) []))
     = [0]"
  by (simp add: sendPacket_unfold session0_def env0_def wire_seqNos_def)

section \<open>Message IDs\<close>

text \<open>
  C2. Take any run of calls of \<^verbatim>\<open>sendPacket\<close> on one session in which the generator keeps
  to what the specification says of it (\<open>GenerateMessageId_increases\<close>). The message IDs
  that the run stores in \<^verbatim>\<open>lastMessageID\<close> are strictly increasing as signed 64-bit
  numbers, the first of them greater than the ID the session started with, and the
  session ends holding the last of them.
\<close>

theorem msgIDs_increasing:
  assumes "GenerateMessageId_increases m calls"
  shows "sorted_wrt (<) (map sint (lastMessageID m # msgIDs m calls)) \<and>
         lastMessageID (sendPackets m calls) = last (lastMessageID m # msgIDs m calls)"
  using assms by (rule msgIDs_above)

theorem msgIDs_increasing_witness:
  "GenerateMessageId_increases session0 [(env0, Object ''ping'' [], []), (env0, Pong [], [])] \<and>
   msgIDs session0 [(env0, Object ''ping'' [], []), (env0, Pong [], [])] = [4, 8] \<and>
   sorted_wrt (<) (map sint
     (lastMessageID session0 #
      msgIDs session0 [(env0, Object ''ping'' [], []), (env0, Pong [], [])])) \<and>
   lastMessageID (sendPackets session0 [(env0, Object ''ping'' [], []), (env0, Pong [], [])]) = 8"
proof -
  have h: "GenerateMessageId_increases session0
             [(env0, Object ''ping'' [], []), (env0, Pong [], [])]"
    by (simp add: sendPacket_unfold session0_def env0_def)
  have i: "msgIDs session0 [(env0, Object ''ping'' [], []), (env0, Pong [], [])] = [4, 8]"
    by (simp add: sendPacket_unfold session0_def env0_def)
  show ?thesis
    using h i msgIDs_increasing [OF h] by simp
qed

section \<open>The receive path delivers at most once\<close>

text \<open>
  C3, as the code has it. Let \<open>X\<close> be a message ID with a registered reply channel. If a
  receiver waits on that channel, delivering to \<open>X\<close> returns no error, hands the delivered
  value to the receiver on that channel (and touches no other channel), and removes the
  reply-channel entry and the type-hint entry of \<open>X\<close> while every other entry of the
  Pending-Request Table stays; a second delivery to \<open>X\<close> then fails with the
  no-response-channel error. If no receiver waits on that channel, the delivery blocks:
  the call does not return and removes nothing. Delivering to an ID with no registered
  reply channel fails with the no-response-channel error and leaves the whole session, the
  table included, as it was.
\<close>

theorem writeRPCResponse_once:
  "(responseChannels m X = Some v \<and> 0 < receivers m v \<longrightarrow>
      (\<exists>m'. writeRPCResponse m X d = Some (None, m') \<and>
            chans m' = (chans m)(v := chans m v @ [d]) \<and>
            receivers m' = (receivers m)(v := receivers m v - 1) \<and>
            responseChannels m' = (responseChannels m)(X := None) \<and>
            expectedTypes m' = (expectedTypes m)(X := None) \<and>
            writeRPCResponse m' X d' = Some (Some (ErrNoResponseChannel X), m'))) \<and>
   (responseChannels m X = Some v \<and> receivers m v = 0 \<longrightarrow>
      writeRPCResponse m X d = None) \<and>
   (responseChannels m X = None \<longrightarrow>
      writeRPCResponse m X d = Some (Some (ErrNoResponseChannel X), m))"
  by (simp add: writeRPCResponse_def chan_send_blocking_def Let_def)

theorem writeRPCResponse_once_witness:
  "responseChannels session0 7 = Some 1 \<and> 0 < receivers session0 1 \<and>
   (\<exists>m'. writeRPCResponse session0 7 Null = Some (None, m') \<and>
         chans m' 1 = [Null] \<and> receivers m' 1 = 0 \<and>
         responseChannels m' 7 = None \<and> expectedTypes m' 7 = None \<and>
         writeRPCResponse m' 7 (Pong []) = Some (Some (ErrNoResponseChannel 7), m')) \<and>
   writeRPCResponse (session0\<lparr>receivers := (\<lambda>c. 0)\<rparr>) 7 Null = None \<and>
   writeRPCResponse session0 8 Null = Some (Some (ErrNoResponseChannel 8), session0)"
proof -
  have h: "responseChannels session0 7 = Some 1" "0 < receivers session0 1"
    "chans session0 1 = []" "receivers session0 1 - 1 = 0"
    "responseChannels session0 8 = None"
    by (simp_all add: session0_def)
  have b: "responseChannels (session0\<lparr>receivers := (\<lambda>c. 0)\<rparr>) 7 = Some 1"
    "receivers (session0\<lparr>receivers := (\<lambda>c. 0)\<rparr>) 1 = 0"
    by (simp_all add: session0_def)
  from writeRPCResponse_once [of session0 7 1 Null "Pong []"] h(1,2)
  obtain m' where m': "writeRPCResponse session0 7 Null = Some (None, m')"
    "chans m' = (chans session0)(1 := chans session0 1 @ [Null])"
    "receivers m' = (receivers session0)(1 := receivers session0 1 - 1)"
    "responseChannels m' = (responseChannels session0)(7 := None)"
    "expectedTypes m' = (expectedTypes session0)(7 := None)"
    "writeRPCResponse m' 7 (Pong []) = Some (Some (ErrNoResponseChannel 7), m')"
    by blast
  from m' h have "writeRPCResponse session0 7 Null = Some (None, m') \<and>
         chans m' 1 = [Null] \<and> receivers m' 1 = 0 \<and>
         responseChannels m' 7 = None \<and> expectedTypes m' 7 = None \<and>
         writeRPCResponse m' 7 (Pong []) = Some (Some (ErrNoResponseChannel 7), m')"
    by simp
  then have e: "\<exists>m'. writeRPCResponse session0 7 Null = Some (None, m') \<and>
         chans m' 1 = [Null] \<and> receivers m' 1 = 0 \<and>
         responseChannels m' 7 = None \<and> expectedTypes m' 7 = None \<and>
         writeRPCResponse m' 7 (Pong []) = Some (Some (ErrNoResponseChannel 7), m')"
    by blast
  from writeRPCResponse_once [of "session0\<lparr>receivers := (\<lambda>c. 0)\<rparr>" 7 1 Null Null] b
  have n: "writeRPCResponse (session0\<lparr>receivers := (\<lambda>c. 0)\<rparr>) 7 Null = None"
    by blast
  from writeRPCResponse_once [of session0 8 1 Null Null] h(5)
  have u: "writeRPCResponse session0 8 Null = Some (Some (ErrNoResponseChannel 8), session0)"
    by blast
  from h(1,2) e n u show ?thesis by blast
qed

text \<open>
  C3, as the specification has it, fails in a state that the send path itself leaves
  behind. Without a transport \<^verbatim>\<open>sendPacket\<close> registers the new reply channel 2 under the
  new message ID 4 and returns the error, so the caller has no channel to wait on. The ID is
  registered, yet delivering to it does not fulfil anything and removes nothing: the call
  blocks.
\<close>

theorem writeRPCResponse_blocks_counterexample:
  "fst (sendPacket env0 (session0\<lparr>transport := None\<rparr>) (Object ''ping'' []) []) =
     Inl ErrTransportNil \<and>
   responseChannels (snd (sendPacket env0 (session0\<lparr>transport := None\<rparr>)
     (Object ''ping'' []) [])) 4 = Some 2 \<and>
   receivers (snd (sendPacket env0 (session0\<lparr>transport := None\<rparr>)
     (Object ''ping'' []) [])) 2 = 0 \<and>
   writeRPCResponse (snd (sendPacket env0 (session0\<lparr>transport := None\<rparr>)
     (Object ''ping'' []) [])) 4 Null = None"
  by (simp add: sendPacket_unfold writeRPCResponse_def chan_send_blocking_def
      session0_def env0_def)

section \<open>Requests that get no reply\<close>

text \<open>
  C6, as the code has it. Let the request serialise. If it is a \<^verbatim>\<open>Pong\<close> or a
  \<^verbatim>\<open>MsgsAck\<close>, \<^verbatim>\<open>sendPacket\<close> sends \<^verbatim>\<open>Null\<close> on the reply channel and registers no
  reply channel: \<^verbatim>\<open>responseChannels\<close> is as before. For a request of any other kind it
  registers the reply channel under the new message ID and sends nothing on it. Type hints
  are another matter: whatever the kind of the request, hints that are given are recorded
  in \<^verbatim>\<open>expectedTypes\<close> under the new message ID, and nothing is recorded when none is
  given. Whenever \<^verbatim>\<open>sendPacket\<close> returns a reply handle, it is that reply channel.
\<close>

theorem nullable_reply:
  assumes "Marshal e request = Inr msg"
  shows "((\<exists>b. request = Pong b \<or> request = MsgsAck b) \<longrightarrow>
            chans (snd (sendPacket e m request types)) =
              (chans m)(fst (getRespChannel m) := chans m (fst (getRespChannel m)) @ [Null]) \<and>
            responseChannels (snd (sendPacket e m request types)) = responseChannels m) \<and>
         ((\<forall>b. request \<noteq> Pong b \<and> request \<noteq> MsgsAck b) \<longrightarrow>
            responseChannels (snd (sendPacket e m request types)) =
              (responseChannels m)
                (GenerateMessageId e (lastMessageID m) \<mapsto> fst (getRespChannel m)) \<and>
            chans (snd (sendPacket e m request types)) = chans m) \<and>
         expectedTypes (snd (sendPacket e m request types)) =
           (if types = [] then expectedTypes m
            else (expectedTypes m)(GenerateMessageId e (lastMessageID m) \<mapsto> types)) \<and>
         (\<forall>c. fst (sendPacket e m request types) = Inr c \<longrightarrow> c = fst (getRespChannel m))"
proof -
  have n: "isNullableResponse request = (\<exists>b. request = Pong b \<or> request = MsgsAck b)"
    by (rule isNullableResponse_iff)
  have r: "\<forall>c. fst (sendPacket e m request types) = Inr c \<longrightarrow> c = fst (getRespChannel m)"
    by (simp add: sendPacket_result [OF assms] split: option.split)
  from n r show ?thesis
    by (simp add: sendPacket_chans [OF assms] sendPacket_responseChannels [OF assms]
        sendPacket_expectedTypes [OF assms])
qed

theorem nullable_reply_witness:
  "Marshal env0 (Pong []) = Inr [] \<and>
   chans (snd (sendPacket env0 session0 (Pong []) [])) 2 = [Null] \<and>
   responseChannels (snd (sendPacket env0 session0 (Pong []) [])) = responseChannels session0 \<and>
   responseChannels (snd (sendPacket env0 session0 (Object ''ping'' []) [])) 4 = Some 2 \<and>
   expectedTypes (snd (sendPacket env0 session0 (Object ''ping'' []) [''Pong''])) 4
     = Some [''Pong''] \<and>
   fst (sendPacket env0 session0 (Pong []) []) = Inr 2"
proof -
  have h: "Marshal env0 (Pong []) = Inr []" "Marshal env0 (Object ''ping'' []) = Inr []"
    by (simp_all add: env0_def)
  have g: "GenerateMessageId env0 (lastMessageID session0) = 4"
    "fst (getRespChannel session0) = 2" "chans session0 2 = []"
    by (simp_all add: env0_def session0_def getRespChannel_def)
  have r: "fst (sendPacket env0 session0 (Pong []) []) = Inr 2"
    by (simp add: sendPacket_unfold session0_def env0_def)
  show ?thesis
    using h r nullable_reply [OF h(1), of session0 "[]"]
      nullable_reply [OF h(2), of session0 "[]"]
      nullable_reply [OF h(2), of session0 "[''Pong'']"]
    by (simp add: g)
qed

text \<open>
  C6, as the specification has it, fails when a request of a no-reply kind comes with type
  hints: the Pending-Request Table then does get an entry for the new message ID, the
  hints. Here the new ID is 4, the table has nothing under 4 before the call and the hints
  after it.
\<close>

theorem nullable_hints_counterexample:
  "isNullableResponse (Pong []) \<and>
   GenerateMessageId env0 (lastMessageID session0) = 4 \<and>
   expectedTypes session0 4 = None \<and>
   expectedTypes (snd (sendPacket env0 session0 (Pong []) [''Pong''])) 4 = Some [''Pong'']"
  by (simp add: sendPacket_unfold session0_def env0_def)

section \<open>The send path without a transport\<close>

text \<open>
  C10, as the code has it. Let no transport be set. \<^verbatim>\<open>sendPacket\<close> of a request that
  serialises returns the transport-is-nil error, and the session keeps what the call did
  before it got there: \<^verbatim>\<open>lastMessageID\<close> is the newly generated ID, the sequence counter
  is 2 further, a request that is not of a no-reply kind has its reply channel registered
  under the new ID, and type hints, if any were given, are recorded under the new ID.
  \<^verbatim>\<open>sendPacket\<close> of a request that the codec rejects returns the marshalling error
  instead and leaves the session as it was.
\<close>

theorem no_transport_no_rollback:
  assumes "transport m = None"
  shows "(\<forall>msg. Marshal e request = Inr msg \<longrightarrow>
            fst (sendPacket e m request types) = Inl ErrTransportNil \<and>
            lastMessageID (snd (sendPacket e m request types)) =
              GenerateMessageId e (lastMessageID m) \<and>
            seqNo (snd (sendPacket e m request types)) = seqNo m + 2 \<and>
            (\<not> isNullableResponse request \<longrightarrow>
               responseChannels (snd (sendPacket e m request types))
                 (GenerateMessageId e (lastMessageID m)) = Some (fst (getRespChannel m))) \<and>
            (types \<noteq> [] \<longrightarrow>
               expectedTypes (snd (sendPacket e m request types))
                 (GenerateMessageId e (lastMessageID m)) = Some types)) \<and>
         (\<forall>err. Marshal e request = Inl err \<longrightarrow>
            sendPacket e m request types = (Inl (ErrMarshal err), m))"
proof (intro conjI allI impI)
  fix msg
  assume h: "Marshal e request = Inr msg"
  show "fst (sendPacket e m request types) = Inl ErrTransportNil"
    using assms by (simp add: sendPacket_result [OF h])
  show "lastMessageID (snd (sendPacket e m request types)) =
      GenerateMessageId e (lastMessageID m)"
    by (rule sendPacket_lastMessageID [OF h])
  show "seqNo (snd (sendPacket e m request types)) = seqNo m + 2"
    by (rule sendPacket_seqNo [OF h])
  show "responseChannels (snd (sendPacket e m request types))
      (GenerateMessageId e (lastMessageID m)) = Some (fst (getRespChannel m))"
    if "\<not> isNullableResponse request"
    using that by (simp add: sendPacket_responseChannels [OF h])
  show "expectedTypes (snd (sendPacket e m request types))
      (GenerateMessageId e (lastMessageID m)) = Some types"
    if "types \<noteq> []"
    using that by (simp add: sendPacket_expectedTypes [OF h])
next
  fix err
  assume "Marshal e request = Inl err"
  then show "sendPacket e m request types = (Inl (ErrMarshal err), m)"
    by (rule sendPacket_Inl)
qed

theorem no_transport_no_rollback_witness:
  "transport (session0\<lparr>transport := None\<rparr>) = None \<and>
   Marshal env0 (Object ''ping'' []) = Inr [] \<and>
   fst (sendPacket env0 (session0\<lparr>transport := None\<rparr>) (Object ''ping'' []) [''Pong''])
     = Inl ErrTransportNil \<and>
   lastMessageID (snd (sendPacket env0 (session0\<lparr>transport := None\<rparr>) (Object ''ping'' [])
     [''Pong''])) = 4 \<and>
   seqNo (snd (sendPacket env0 (session0\<lparr>transport := None\<rparr>) (Object ''ping'' [])
     [''Pong''])) = 2 \<and>
   responseChannels (snd (sendPacket env0 (session0\<lparr>transport := None\<rparr>) (Object ''ping'' [])
     [''Pong''])) 4 = Some 2 \<and>
   expectedTypes (snd (sendPacket env0 (session0\<lparr>transport := None\<rparr>) (Object ''ping'' [])
     [''Pong''])) 4 = Some [''Pong''] \<and>
   Marshal env1 (Object ''ping'' []) = Inl ''unsupported type'' \<and>
   sendPacket env1 (session0\<lparr>transport := None\<rparr>) (Object ''ping'' []) [''Pong''] =
     (Inl (ErrMarshal ''unsupported type''), session0\<lparr>transport := None\<rparr>)"
proof -
  have t: "transport (session0\<lparr>transport := None\<rparr>) = None" by simp
  have h: "Marshal env0 (Object ''ping'' []) = Inr []" by (simp add: env0_def)
  have h1: "Marshal env1 (Object ''ping'' []) = Inl ''unsupported type''"
    by (simp add: env1_def)
  have g: "GenerateMessageId env0 (lastMessageID session0) = 4"
    "fst (getRespChannel (session0\<lparr>transport := None\<rparr>)) = 2"
    "seqNo session0 = 0"
    by (simp_all add: env0_def session0_def getRespChannel_def)
  show ?thesis
    using t h h1
      no_transport_no_rollback [OF t, of env0 "Object ''ping'' []" "[''Pong'']"]
      no_transport_no_rollback [OF t, of env1 "Object ''ping'' []" "[''Pong'']"]
    by (simp add: g)
qed

text \<open>
  C10, as the specification has it, fails for a request that the codec rejects: with no
  transport set, \<^verbatim>\<open>sendPacket\<close> returns the marshalling error, not the
  transport-is-nil error, and nothing in the session has changed.
\<close>

theorem marshal_error_counterexample:
  "transport (session0\<lparr>transport := None\<rparr>) = None \<and>
   sendPacket env1 (session0\<lparr>transport := None\<rparr>) (Object ''ping'' []) [''Pong''] =
     (Inl (ErrMarshal ''unsupported type''), session0\<lparr>transport := None\<rparr>)"
  by (simp add: sendPacket_def env1_def)

section \<open>Decimal strings\<close>

text \<open>\<^verbatim>\<open>Atoi\<close> reads back what \<^verbatim>\<open>Itoa\<close> writes, also behind leading zeros, and the
  decimal form of a number that is not negative does not begin with a minus sign.\<close>

lemma digit_cases: "d < 10 \<Longrightarrow> d \<in> {0, 1, 2, 3, 4, 5, 6, 7, 8, 9::nat}"
  by auto

lemma digit_char_props:
  assumes "d < 10"
  shows "is_digit (digit_char d)" and "digit_val (digit_char d) = d"
    and "digit_char d \<noteq> CHR ''-''" and "digit_char d \<noteq> CHR ''+''"
  using digit_cases [OF assms]
  by (auto simp: digit_char_def is_digit_def digit_val_def)

lemma digits_value_snoc: "digits_value (ds @ [c]) = digits_value ds * 10 + digit_val c"
  by (simp add: digits_value_def)

lemma FormatUint_digits: "FormatUint n \<noteq> [] \<and> list_all is_digit (FormatUint n)"
proof (induction n rule: FormatUint.induct)
  case (1 n)
  show ?case
  proof (cases "n < 10")
    case True
    then show ?thesis by (simp add: FormatUint.simps [of n] digit_char_props)
  next
    case False
    with 1 show ?thesis by (simp add: FormatUint.simps [of n] digit_char_props)
  qed
qed

lemma digits_value_FormatUint: "digits_value (FormatUint n) = n"
proof (induction n rule: FormatUint.induct)
  case (1 n)
  show ?case
  proof (cases "n < 10")
    case True
    then show ?thesis
      by (simp add: FormatUint.simps [of n] digits_value_def digit_char_props)
  next
    case False
    with 1 show ?thesis
      by (simp add: FormatUint.simps [of n] digits_value_snoc digit_char_props)
  qed
qed

lemma digits_value_zeros:
  "digits_value (replicate k CHR ''0'' @ ds) = digits_value ds"
  by (induction k) (simp_all add: digits_value_def digit_val_def)

lemma FormatUint_no_sign:
  "FormatUint n = c # cs \<Longrightarrow> is_digit c \<and> c \<noteq> CHR ''-'' \<and> c \<noteq> CHR ''+''"
  using FormatUint_digits [of n] by (auto simp: is_digit_def)

lemma Atoi_digits:
  assumes "ds \<noteq> []" and "list_all is_digit ds" and "int (digits_value ds) < 2 ^ 63"
  shows "Atoi ds = Inr (int (digits_value ds))"
proof -
  from assms(1) obtain c cs where ds: "ds = c # cs" by (cases ds) auto
  with assms(2) have c: "c \<noteq> CHR ''-''" "c \<noteq> CHR ''+''" by (auto simp: is_digit_def)
  have "- (2 ^ 63) \<le> int (digits_value ds)" by (simp add: order_trans [of _ 0])
  with assms c ds show ?thesis
    by (simp add: Atoi_def Let_def)
qed

lemma Atoi_padded:
  assumes "int n < 2 ^ 63"
  shows "Atoi (replicate k CHR ''0'' @ FormatUint n) = Inr (int n)"
proof -
  have "list_all is_digit (replicate k CHR ''0'')"
    by (simp add: list_all_iff is_digit_def)
  with FormatUint_digits [of n] assms
  show ?thesis
    using Atoi_digits [of "replicate k CHR ''0'' @ FormatUint n"]
    by (simp add: digits_value_zeros digits_value_FormatUint)
qed

lemma Atoi_Itoa:
  assumes "- (2 ^ 63) \<le> i" and "i < 2 ^ 63"
  shows "Atoi (Itoa i) = Inr i"
proof (cases "i < 0")
  case False
  with assms Atoi_padded [of "nat i" 0] show ?thesis by (simp add: Itoa_def)
next
  case True
  with FormatUint_digits [of "nat (- i)"] assms show ?thesis
    by (simp add: Itoa_def Atoi_def Let_def digits_value_FormatUint)
qed

lemma Itoa_nonneg_no_prefix:
  assumes "0 \<le> i"
  shows "\<not> HasPrefix (Itoa i) ''-100''"
proof
  assume "HasPrefix (Itoa i) ''-100''"
  with assms obtain cs where "FormatUint (nat i) = CHR ''-'' # cs"
    by (cases "FormatUint (nat i)") (auto simp: HasPrefix_def Itoa_def)
  with FormatUint_no_sign show False by blast
qed

section \<open>Loops over the maps of the cache\<close>

text \<open>A loop that looks for one key finds the entry of that key, whatever the order of the
  visit; a loop whose body never returns finds nothing.\<close>

lemma range_first_key:
  "k \<in> set ks \<or> m k = None \<Longrightarrow>
   range_first ks m (\<lambda>k' v. if k' = k then Some (f k' v) else None) = map_option (f k) (m k)"
  by (induction ks) (auto split: option.splits)

lemma range_first_none:
  "(\<And>k v. m k = Some v \<Longrightarrow> body k v = None) \<Longrightarrow> range_first ks m body = None"
  by (induction ks) (auto split: option.splits)

lemma range_first_cong_on_entries:
  "(\<And>k v. m k = Some v \<Longrightarrow> body k v = body' k v) \<Longrightarrow>
   range_first ks m body = range_first ks m body'"
  by (induction ks) (auto split: option.splits)

lemma enumerates_mem:
  assumes "enumerates ro c"
  shows "k \<in> set (ord_InputUsers ro) \<or> InputUsers (InputPeers c) k = None"
    and "k \<in> set (ord_InputChats ro) \<or> InputChats (InputPeers c) k = None"
    and "k \<in> set (ord_InputChannels ro) \<or> InputChannels (InputPeers c) k = None"
    and "k \<in> set (ord_users ro) \<or> users c k = None"
  using assms by (auto simp: enumerates_def)

lemma GetInputPeer_probe:
  assumes "enumerates ro c" and "\<not> HasPrefix (Itoa (sint x)) ''-100''"
  shows "GetInputPeer ro c x =
     (case InputUsers (InputPeers c) x of
        Some userHash \<Rightarrow> Inr (InputPeerUser x userHash)
      | None \<Rightarrow>
          (case InputChats (InputPeers c) x of
             Some v \<Rightarrow> Inr (InputPeerChat x)
           | None \<Rightarrow>
               (case InputChannels (InputPeers c) x of
                  Some channelHash \<Rightarrow> Inr (InputPeerChannel x channelHash)
                | None \<Rightarrow> Inl (ErrNoPeer x))))"
  using assms(2)
  by (simp add: GetInputPeer_def
      range_first_key [OF enumerates_mem(1) [OF assms(1)], where f = InputPeerUser]
      range_first_key [OF enumerates_mem(2) [OF assms(1)], where f = "\<lambda>k v. InputPeerChat k"]
      range_first_key [OF enumerates_mem(3) [OF assms(1)], where f = InputPeerChannel]
      split: option.splits)

lemma GetInputPeer_encoded:
  assumes "0 \<le> sint x"
    and "Itoa (sint p) = ''-100'' @ replicate k CHR ''0'' @ Itoa (sint x)"
  shows "GetInputPeer ro c p = GetInputPeer ro c x"
proof -
  have pre: "HasPrefix (Itoa (sint p)) ''-100''"
    by (simp add: assms(2) HasPrefix_def)
  have trim: "TrimPrefix (Itoa (sint p)) ''-100'' = replicate k CHR ''0'' @ FormatUint (nat (sint x))"
  proof -
    have "Itoa (sint x) = FormatUint (nat (sint x))"
      using assms(1) by (simp add: Itoa_def)
    then show ?thesis by (simp add: TrimPrefix_def pre) (simp add: assms(2))
  qed
  have "sint x < 2 ^ 63" using sint_lt [of x] by simp
  with assms(1) have "Atoi (replicate k CHR ''0'' @ FormatUint (nat (sint x))) = Inr (sint x)"
    using Atoi_padded [of "nat (sint x)" k] by simp
  with pre trim Itoa_nonneg_no_prefix [OF assms(1)] show ?thesis
    by (simp add: GetInputPeer_def)
qed

lemma enumerates_order0: "enumerates order0 cache0"
  by (auto simp: enumerates_def order0_def cache0_def)

lemma no_prefix_small:
  "\<not> HasPrefix (Itoa (sint (9 :: int64))) ''-100''"
  "\<not> HasPrefix (Itoa (sint (3 :: int64))) ''-100''"
  "\<not> HasPrefix (Itoa (sint (5 :: int64))) ''-100''"
  "\<not> HasPrefix (Itoa (sint (4 :: int64))) ''-100''"
  by (simp_all add: Itoa_nonneg_no_prefix)

lemma users_keyed_by_ID_NewCache: "users_keyed_by_ID NewCache"
  by (simp add: users_keyed_by_ID_def NewCache_def)

lemma users_keyed_by_ID_UpdateUser:
  "users_keyed_by_ID c \<Longrightarrow> users_keyed_by_ID (UpdateUser c user)"
  by (simp add: users_keyed_by_ID_def UpdateUser_def)

lemma users_keyed_by_ID_UpdateChannel:
  "users_keyed_by_ID c \<Longrightarrow> users_keyed_by_ID (UpdateChannel c channel)"
  by (simp add: users_keyed_by_ID_def UpdateChannel_def)

lemma users_keyed_by_ID_UpdateChat:
  "users_keyed_by_ID c \<Longrightarrow> users_keyed_by_ID (UpdateChat c chat)"
  by (simp add: users_keyed_by_ID_def UpdateChat_def)

lemma users_keyed_by_ID_ImportJSON:
  "users_keyed_by_ID c \<Longrightarrow> users_keyed_by_ID (snd (ImportJSON data c))"
  by (simp add: users_keyed_by_ID_def ImportJSON_def Let_def)

lemma getUserFromCache_cached:
  assumes "users_keyed_by_ID c" and "enumerates ro c" and "users c userID = Some user"
  shows "getUserFromCache r ro c userID = (Inr user, [])"
proof -
  have "range_first (ord_users ro) (users c)
          (\<lambda>k user. if UserObj_ID user = userID then Some user else None) =
        range_first (ord_users ro) (users c)
          (\<lambda>k user. if k = userID then Some ((\<lambda>k v. v) k user) else None)"
    using assms(1) by (intro range_first_cong_on_entries) (auto simp: users_keyed_by_ID_def)
  also have "\<dots> = map_option ((\<lambda>k v. v) userID) (users c userID)"
    by (rule range_first_key [OF enumerates_mem(4) [OF assms(2)]])
  finally show ?thesis
    by (simp add: getUserFromCache_def assms(3))
qed

section \<open>Lookup of an entity that is not cached\<close>

text \<open>
  C4, as the code has it. A user ID with no record in \<^verbatim>\<open>users\<close> and no entry in
  \<^verbatim>\<open>InputUsers\<close> makes \<^verbatim>\<open>getUserFromCache\<close> fail with the no-user error without
  issuing a request, and likewise a channel ID with \<^verbatim>\<open>getChannelFromCache\<close>. A chat ID
  with no record in \<^verbatim>\<open>chats\<close> makes \<^verbatim>\<open>getChatFromCache\<close> issue the one request
  \<^verbatim>\<open>MessagesGetChats([chatID])\<close>, whether or not \<^verbatim>\<open>InputChats\<close> has the ID, and return
  what the answer gives: its first chat if it is a \<^verbatim>\<open>ChatObj\<close>, the error of the request,
  or the no-chat error.
\<close>

theorem lookup_without_handle:
  "((\<forall>k user. users c k = Some user \<longrightarrow> UserObj_ID user \<noteq> userID) \<and>
    InputUsers (InputPeers c) userID = None \<longrightarrow>
      getUserFromCache r ro c userID = (Inl (ErrNoUserPeer userID), [])) \<and>
   ((\<forall>k channel. channels c k = Some channel \<longrightarrow> Channel_ID channel \<noteq> channelID) \<and>
    InputChannels (InputPeers c) channelID = None \<longrightarrow>
      getChannelFromCache r ro c channelID = (Inl (ErrNoChannel channelID), [])) \<and>
   ((\<forall>k chat. chats c k = Some chat \<longrightarrow> ChatObj_ID chat \<noteq> chatID) \<longrightarrow>
      snd (getChatFromCache r ro c chatID) = [Req_MessagesGetChats [chatID]] \<and>
      fst (getChatFromCache r ro c chatID) =
        (case MessagesGetChats r [chatID] of
           Inl err \<Rightarrow> Inl (ErrRequest err)
         | Inr (MessagesChatsObj (Chat_ChatObj chatObj # cs)) \<Rightarrow> Inr chatObj
         | Inr other \<Rightarrow> Inl (ErrNoChat chatID)))"
proof (intro conjI impI)
  assume a: "(\<forall>k user. users c k = Some user \<longrightarrow> UserObj_ID user \<noteq> userID) \<and>
    InputUsers (InputPeers c) userID = None"
  then have "range_first (ord_users ro) (users c)
      (\<lambda>k user. if UserObj_ID user = userID then Some user else None) = None"
    by (intro range_first_none) auto
  moreover from a have "getUserPeer ro c userID = Inl (ErrNoUserPeer userID)"
    by (simp add: getUserPeer_def range_first_key)
  ultimately show "getUserFromCache r ro c userID = (Inl (ErrNoUserPeer userID), [])"
    by (simp add: getUserFromCache_def)
next
  assume a: "(\<forall>k channel. channels c k = Some channel \<longrightarrow> Channel_ID channel \<noteq> channelID) \<and>
    InputChannels (InputPeers c) channelID = None"
  then have "range_first (ord_channels ro) (channels c)
      (\<lambda>k channel. if Channel_ID channel = channelID then Some channel else None) = None"
    by (intro range_first_none) auto
  moreover from a have "getChannelPeer ro c channelID = Inl (ErrNoChannel channelID)"
    by (simp add: getChannelPeer_def range_first_key)
  ultimately show "getChannelFromCache r ro c channelID = (Inl (ErrNoChannel channelID), [])"
    by (simp add: getChannelFromCache_def)
next
  assume a: "\<forall>k chat. chats c k = Some chat \<longrightarrow> ChatObj_ID chat \<noteq> chatID"
  then have n: "range_first (ord_chats ro) (chats c)
      (\<lambda>k chat. if ChatObj_ID chat = chatID then Some chat else None) = None"
    by (intro range_first_none) auto
  show "snd (getChatFromCache r ro c chatID) = [Req_MessagesGetChats [chatID]]"
    by (simp add: getChatFromCache_def n split: sum.split MessagesChats.split list.split Chat.split)
  show "fst (getChatFromCache r ro c chatID) =
        (case MessagesGetChats r [chatID] of
           Inl err \<Rightarrow> Inl (ErrRequest err)
         | Inr (MessagesChatsObj (Chat_ChatObj chatObj # cs)) \<Rightarrow> Inr chatObj
         | Inr other \<Rightarrow> Inl (ErrNoChat chatID))"
    by (simp add: getChatFromCache_def n split: sum.split MessagesChats.split list.split Chat.split)
qed

theorem lookup_without_handle_witness:
  "users cache0 = Map.empty \<and> InputUsers (InputPeers cache0) 4 = None \<and>
   getUserFromCache rpc0 order0 cache0 4 = (Inl (ErrNoUserPeer 4), []) \<and>
   channels cache0 = Map.empty \<and> InputChannels (InputPeers cache0) 4 = None \<and>
   getChannelFromCache rpc0 order0 cache0 4 = (Inl (ErrNoChannel 4), []) \<and>
   chats cache0 = Map.empty \<and>
   snd (getChatFromCache rpc0 order0 cache0 4) = [Req_MessagesGetChats [4]] \<and>
   fst (getChatFromCache rpc0 order0 cache0 4) = Inr \<lparr>ChatObj_ID = 4, ChatObj_Fields = []\<rparr>"
proof -
  have e: "users cache0 = Map.empty" "channels cache0 = Map.empty" "chats cache0 = Map.empty"
    "InputUsers (InputPeers cache0) 4 = None" "InputChannels (InputPeers cache0) 4 = None"
    by (simp_all add: cache0_def)
  have m: "MessagesGetChats rpc0 [4] =
      Inr (MessagesChatsObj [Chat_ChatObj \<lparr>ChatObj_ID = 4, ChatObj_Fields = []\<rparr>])"
    by (simp add: rpc0_def)
  show ?thesis
    using e lookup_without_handle [of cache0 4 rpc0 order0 4 4]
    by (simp add: m)
qed

text \<open>
  C4, as the specification has it, fails for chats: with no record and no entry in
  \<^verbatim>\<open>InputChats\<close> for chat 4, \<^verbatim>\<open>getChatFromCache\<close> issues the delegated request and,
  the server answering with the chat, succeeds.
\<close>

theorem getChat_fetches_counterexample:
  "chats cache0 = Map.empty \<and> InputChats (InputPeers cache0) 4 = None \<and>
   getChatFromCache rpc0 order0 cache0 4 =
     (Inr \<lparr>ChatObj_ID = 4, ChatObj_Fields = []\<rparr>, [Req_MessagesGetChats [4]])"
  by (simp add: getChatFromCache_def cache0_def order0_def rpc0_def)

section \<open>Resolving a peer\<close>

text \<open>
  C5. Let \<open>x\<close> be an entity ID that is not negative and \<open>p\<close> an ID whose decimal form is
  \<^verbatim>\<open>-100\<close>, then any number of zeros, then the decimal form of \<open>x\<close> (so both the plain
  prefix and the form \<^verbatim>\<open>-1000000000000 - x\<close> of the service). Then \<^verbatim>\<open>GetInputPeer\<close>
  gives for \<open>p\<close> what it gives for \<open>x\<close>, in every cache; and it gives a peer reference
  when \<open>x\<close> is in one of the three indexes.
\<close>

theorem channel_offset_resolves_alike:
  assumes "0 \<le> sint x"
    and "Itoa (sint p) = ''-100'' @ replicate k CHR ''0'' @ Itoa (sint x)"
  shows "GetInputPeer ro c p = GetInputPeer ro c x \<and>
         (enumerates ro c \<and>
          (x \<in> dom (InputUsers (InputPeers c)) \<or> x \<in> dom (InputChats (InputPeers c)) \<or>
           x \<in> dom (InputChannels (InputPeers c))) \<longrightarrow>
          (\<exists>r. GetInputPeer ro c p = Inr r))"
proof -
  have eq: "GetInputPeer ro c p = GetInputPeer ro c x"
    using assms by (rule GetInputPeer_encoded)
  have "\<exists>r. GetInputPeer ro c x = Inr r"
    if "enumerates ro c" and "x \<in> dom (InputUsers (InputPeers c)) \<or>
      x \<in> dom (InputChats (InputPeers c)) \<or> x \<in> dom (InputChannels (InputPeers c))"
    using that(2)
    by (auto simp add: GetInputPeer_probe [OF that(1) Itoa_nonneg_no_prefix [OF assms(1)]]
        split: option.splits)
  with eq show ?thesis by simp
qed

theorem channel_offset_resolves_alike_witness:
  "(0::int) \<le> sint (5 :: int64) \<and>
   Itoa (sint (- 1000000000005 :: int64)) = ''-100'' @ replicate 9 CHR ''0'' @ Itoa (sint (5 :: int64)) \<and>
   GetInputPeer order0 cache0 5 = Inr (InputPeerChannel 5 77) \<and>
   GetInputPeer order0 cache0 (- 1000000000005) = Inr (InputPeerChannel 5 77)"
proof -
  have h1: "(0::int) \<le> sint (5 :: int64)" by simp
  have h2: "Itoa (sint (- 1000000000005 :: int64)) =
      ''-100'' @ replicate 9 CHR ''0'' @ Itoa (sint (5 :: int64))"
  proof -
    have "replicate 9 CHR ''0'' = ''000000000''" by (simp add: numeral_eq_Suc)
    then show ?thesis by (simp add: Itoa_def FormatUint.simps digit_char_def)
  qed
  have b: "GetInputPeer order0 cache0 5 = Inr (InputPeerChannel 5 77)"
    by (simp add: GetInputPeer_def order0_def cache0_def HasPrefix_def Itoa_def
        FormatUint.simps digit_char_def)
  show ?thesis
    using h1 h2 b channel_offset_resolves_alike [OF h1 h2, of order0 cache0]
    by simp
qed

text \<open>
  C7. For an ID whose decimal form does not begin with \<^verbatim>\<open>-100\<close>, \<^verbatim>\<open>GetInputPeer\<close>
  returns the user reference with the stored access hash if \<^verbatim>\<open>InputUsers\<close> has the ID;
  if not, the chat reference, which has no access hash, if \<^verbatim>\<open>InputChats\<close> has it; if
  not, the channel reference with the stored access hash if \<^verbatim>\<open>InputChannels\<close> has it;
  and the no-peer error when none of the three has it.
\<close>

theorem GetInputPeer_probes_in_order:
  assumes "enumerates ro c" and "\<not> HasPrefix (Itoa (sint x)) ''-100''"
  shows "GetInputPeer ro c x =
     (case InputUsers (InputPeers c) x of
        Some userHash \<Rightarrow> Inr (InputPeerUser x userHash)
      | None \<Rightarrow>
          (case InputChats (InputPeers c) x of
             Some v \<Rightarrow> Inr (InputPeerChat x)
           | None \<Rightarrow>
               (case InputChannels (InputPeers c) x of
                  Some channelHash \<Rightarrow> Inr (InputPeerChannel x channelHash)
                | None \<Rightarrow> Inl (ErrNoPeer x))))"
  using assms by (rule GetInputPeer_probe)

theorem GetInputPeer_probes_in_order_witness:
  "GetInputPeer order0 cache0 9 = Inr (InputPeerUser 9 11) \<and>
   GetInputPeer order0 cache0 3 = Inr (InputPeerChat 3) \<and>
   GetInputPeer order0 cache0 5 = Inr (InputPeerChannel 5 77) \<and>
   GetInputPeer order0 cache0 4 = Inl (ErrNoPeer 4)"
  using GetInputPeer_probes_in_order [OF enumerates_order0 no_prefix_small(1)]
    GetInputPeer_probes_in_order [OF enumerates_order0 no_prefix_small(2)]
    GetInputPeer_probes_in_order [OF enumerates_order0 no_prefix_small(3)]
    GetInputPeer_probes_in_order [OF enumerates_order0 no_prefix_small(4)]
  by (simp add: cache0_def)

section \<open>Upsert, then lookup\<close>

text \<open>
  C8, as the code has it. In a cache whose user records are stored under their own IDs,
  after \<^verbatim>\<open>UpdateUser\<close> of a user, \<^verbatim>\<open>getUserFromCache\<close> of that user's ID returns that
  very record and issues no request, whatever the ID; and if the decimal form of the ID does
  not begin with \<^verbatim>\<open>-100\<close>, \<^verbatim>\<open>GetInputPeer\<close> of that ID returns the user reference with
  the access hash of the record.
\<close>

theorem upsert_then_lookup:
  assumes "users_keyed_by_ID c" and "enumerates ro (UpdateUser c user)"
  shows "getUserFromCache r ro (UpdateUser c user) (UserObj_ID user) = (Inr user, []) \<and>
         (\<not> HasPrefix (Itoa (sint (UserObj_ID user))) ''-100'' \<longrightarrow>
            GetInputPeer ro (UpdateUser c user) (UserObj_ID user) =
              Inr (InputPeerUser (UserObj_ID user) (UserObj_AccessHash user)))"
proof -
  have "users (UpdateUser c user) (UserObj_ID user) = Some user"
    by (simp add: UpdateUser_def)
  with users_keyed_by_ID_UpdateUser [OF assms(1)] assms(2)
  have "getUserFromCache r ro (UpdateUser c user) (UserObj_ID user) = (Inr user, [])"
    by (rule getUserFromCache_cached)
  moreover have "InputUsers (InputPeers (UpdateUser c user)) (UserObj_ID user) =
      Some (UserObj_AccessHash user)"
    by (simp add: UpdateUser_def)
  ultimately show ?thesis
    by (simp add: GetInputPeer_probe [OF assms(2)])
qed

theorem upsert_then_lookup_witness:
  "getUserFromCache rpc0 order1
     (UpdateUser NewCache \<lparr>UserObj_ID = 9, UserObj_AccessHash = 11, UserObj_Fields = [1]\<rparr>) 9 =
     (Inr \<lparr>UserObj_ID = 9, UserObj_AccessHash = 11, UserObj_Fields = [1]\<rparr>, []) \<and>
   GetInputPeer order1
     (UpdateUser NewCache \<lparr>UserObj_ID = 9, UserObj_AccessHash = 11, UserObj_Fields = [1]\<rparr>) 9 =
     Inr (InputPeerUser 9 11)"
proof -
  let ?u = "\<lparr>UserObj_ID = 9, UserObj_AccessHash = 11, UserObj_Fields = [1]\<rparr>"
  have e: "enumerates order1 (UpdateUser NewCache ?u)"
    by (simp add: enumerates_def order1_def UpdateUser_def NewCache_def)
  have p: "\<not> HasPrefix (Itoa (sint (UserObj_ID ?u))) ''-100''"
    by (simp add: Itoa_nonneg_no_prefix)
  show ?thesis
    using p upsert_then_lookup [OF users_keyed_by_ID_NewCache e, of rpc0] by simp
qed

text \<open>
  C8, as the specification has it, fails for a user object whose ID reads \<^verbatim>\<open>-1005\<close>:
  \<^verbatim>\<open>UpdateUser\<close> stores its access hash under \<^verbatim>\<open>-1005\<close>, \<^verbatim>\<open>getUserFromCache\<close> finds
  the record, but \<^verbatim>\<open>GetInputPeer\<close> takes the ID for an encoded channel ID, looks up 5
  and returns the no-peer error.
\<close>

theorem prefixed_user_ID_counterexample:
  "getUserFromCache rpc0 order2
     (UpdateUser NewCache \<lparr>UserObj_ID = - 1005, UserObj_AccessHash = 11, UserObj_Fields = []\<rparr>)
     (- 1005) =
     (Inr \<lparr>UserObj_ID = - 1005, UserObj_AccessHash = 11, UserObj_Fields = []\<rparr>, []) \<and>
   InputUsers (InputPeers
     (UpdateUser NewCache \<lparr>UserObj_ID = - 1005, UserObj_AccessHash = 11, UserObj_Fields = []\<rparr>))
     (- 1005) = Some 11 \<and>
   GetInputPeer order2
     (UpdateUser NewCache \<lparr>UserObj_ID = - 1005, UserObj_AccessHash = 11, UserObj_Fields = []\<rparr>)
     (- 1005) = Inl (ErrNoPeer 5)"
proof -
  have i: "Itoa (- 1005) = ''-1005''"
    by (simp add: Itoa_def FormatUint.simps digit_char_def)
  have a: "Atoi ''5'' = Inr 5"
    by (simp add: Atoi_def is_digit_def digits_value_def digit_val_def)
  show ?thesis
    by (simp add: getUserFromCache_def GetInputPeer_def UpdateUser_def NewCache_def order2_def
        i a HasPrefix_def TrimPrefix_def)
qed

section \<open>Export, then import\<close>

lemma Atoi_Itoa_sint: "Atoi (Itoa (sint (k :: int64))) = Inr (sint k)"
proof -
  have "- (2 ^ 63) \<le> sint k" using sint_ge [of k] by simp
  moreover have "sint k < 2 ^ 63" using sint_lt [of k] by simp
  ultimately show ?thesis by (rule Atoi_Itoa)
qed

lemma sint_in_range: "\<not> (sint (v :: int64) < - (2 ^ 63) \<or> 2 ^ 63 - 1 < sint v)"
  using sint_ge [of v] sint_lt [of v] by simp

lemma unmarshal_marshal_map:
  "unmarshal_map (marshal_map ks m) acc = (False, acc ++ (m |` set ks))"
proof (induction ks arbitrary: acc)
  case Nil
  show ?case by (simp add: marshal_map_def List.map_filter_simps)
next
  case (Cons k ks)
  show ?case
  proof (cases "m k")
    case None
    then have "marshal_map (k # ks) m = marshal_map ks m"
      by (simp add: marshal_map_def List.map_filter_simps)
    moreover from None have "acc ++ (m |` set (k # ks)) = acc ++ (m |` set ks)"
      by (auto simp: map_add_def restrict_map_def fun_eq_iff split: option.splits)
    ultimately show ?thesis using Cons.IH [of acc] by simp
  next
    case (Some v)
    then have "marshal_map (k # ks) m = (Itoa (sint k), sint v) # marshal_map ks m"
      by (simp add: marshal_map_def List.map_filter_simps)
    moreover from Some have "acc(k \<mapsto> v) ++ (m |` set ks) = acc ++ (m |` set (k # ks))"
      by (auto simp: map_add_def restrict_map_def fun_eq_iff split: option.splits)
    moreover have "unmarshal_map ((Itoa (sint k), sint v) # marshal_map ks m) acc =
        unmarshal_map (marshal_map ks m) (acc(k \<mapsto> v))"
      using sint_in_range [of v] by (simp add: Atoi_Itoa_sint Let_def)
    ultimately show ?thesis
      by (simp only: Cons.IH [of "acc(k \<mapsto> v)"])
  qed
qed

lemma unmarshal_marshal_map_empty:
  assumes "set ks = dom m"
  shows "unmarshal_map (marshal_map ks m) Map.empty = (False, m)"
proof -
  have "m |` dom m = m" by (auto simp: restrict_map_def fun_eq_iff domIff)
  with assms show ?thesis by (simp add: unmarshal_marshal_map)
qed

lemma empty_order_empty_map: "set ks = dom m \<Longrightarrow> ks = [] \<Longrightarrow> m = Map.empty"
  by (metis dom_eq_empty_conv list.set(1))

lemma unmarshal_marshal_InputPeerCache:
  assumes "set (ord_InputChannels ro) = dom (InputChannels ip)"
    and "set (ord_InputUsers ro) = dom (InputUsers ip)"
    and "set (ord_InputChats ro) = dom (InputChats ip)"
  shows "unmarshal_InputPeerCache (marshal_InputPeerCache ro ip)
           \<lparr>InputChannels = Map.empty, InputUsers = Map.empty, InputChats = Map.empty\<rparr> =
         (False, ip)"
proof -
  note m = unmarshal_marshal_map_empty [OF assms(1)] unmarshal_marshal_map_empty [OF assms(2)]
    unmarshal_marshal_map_empty [OF assms(3)]
  note e = empty_order_empty_map [OF assms(1)] empty_order_empty_map [OF assms(2)]
    empty_order_empty_map [OF assms(3)]
  obtain chs us cts where ip: "ip = \<lparr>InputChannels = chs, InputUsers = us, InputChats = cts\<rparr>"
    by (cases ip) auto
  from m have m': "unmarshal_map (marshal_map (ord_InputChannels ro) chs) Map.empty = (False, chs)"
    "unmarshal_map (marshal_map (ord_InputUsers ro) us) Map.empty = (False, us)"
    "unmarshal_map (marshal_map (ord_InputChats ro) cts) Map.empty = (False, cts)"
    by (simp_all add: ip)
  from e have e': "ord_InputChannels ro = [] \<Longrightarrow> chs = Map.empty"
    "ord_InputUsers ro = [] \<Longrightarrow> us = Map.empty"
    "ord_InputChats ro = [] \<Longrightarrow> cts = Map.empty"
    by (simp_all add: ip)
  show ?thesis
  proof (cases "ord_InputChannels ro = []")
    case True
    note a = True e'(1) [OF True]
    show ?thesis
    proof (cases "ord_InputUsers ro = []")
      case True
      note b = True e'(2) [OF True]
      show ?thesis
      proof (cases "ord_InputChats ro = []")
        case True
        with a b e'(3) [OF True] show ?thesis
          by (simp add: marshal_InputPeerCache_def ip)
      next
        case False
        with a b m'(3) show ?thesis
          by (simp add: marshal_InputPeerCache_def ip to_lower_def)
      qed
    next
      case False
      note b = False m'(2)
      show ?thesis
      proof (cases "ord_InputChats ro = []")
        case True
        with a b e'(3) [OF True] show ?thesis
          by (simp add: marshal_InputPeerCache_def ip to_lower_def)
      next
        case False
        with a b m'(3) show ?thesis
          by (simp add: marshal_InputPeerCache_def ip to_lower_def)
      qed
    qed
  next
    case False
    note a = False m'(1)
    show ?thesis
    proof (cases "ord_InputUsers ro = []")
      case True
      note b = True e'(2) [OF True]
      show ?thesis
      proof (cases "ord_InputChats ro = []")
        case True
        with a b e'(3) [OF True] show ?thesis
          by (simp add: marshal_InputPeerCache_def ip to_lower_def)
      next
        case False
        with a b m'(3) show ?thesis
          by (simp add: marshal_InputPeerCache_def ip to_lower_def)
      qed
    next
      case False
      note b = False m'(2)
      show ?thesis
      proof (cases "ord_InputChats ro = []")
        case True
        with a b e'(3) [OF True] show ?thesis
          by (simp add: marshal_InputPeerCache_def ip to_lower_def)
      next
        case False
        with a b m'(3) show ?thesis
          by (simp add: marshal_InputPeerCache_def ip to_lower_def)
      qed
    qed
  qed
qed

text \<open>
  C9. For every cache, importing into a new cache what \<^verbatim>\<open>ExportJSON\<close> gives returns no
  error and results in the new cache with exactly the peer-handle index of the exported
  one: the same three maps. No file takes part.
\<close>

theorem export_import_roundtrip:
  assumes "enumerates ro c"
  shows "ImportJSON (ExportJSON ro c) NewCache = (None, NewCache\<lparr>InputPeers := InputPeers c\<rparr>)"
proof -
  from assms have "unmarshal_InputPeerCache (marshal_InputPeerCache ro (InputPeers c))
      \<lparr>InputChannels = Map.empty, InputUsers = Map.empty, InputChats = Map.empty\<rparr> =
      (False, InputPeers c)"
    by (intro unmarshal_marshal_InputPeerCache) (simp_all add: enumerates_def)
  then show ?thesis
    by (simp add: ImportJSON_def ExportJSON_def NewCache_def)
qed

theorem export_import_roundtrip_witness:
  "ExportJSON order0 cache0 =
     [(''channels'', [(''5'', 77), (''3'', 8)]), (''users'', [(''9'', 11)]),
      (''chats'', [(''9'', 9), (''3'', 3)])] \<and>
   ImportJSON (ExportJSON order0 cache0) NewCache =
     (None, NewCache\<lparr>InputPeers := InputPeers cache0\<rparr>)"
proof -
  have d: "ExportJSON order0 cache0 =
     [(''channels'', [(''5'', 77), (''3'', 8)]), (''users'', [(''9'', 11)]),
      (''chats'', [(''9'', 9), (''3'', 3)])]"
    by (simp add: ExportJSON_def marshal_InputPeerCache_def marshal_map_def
        List.map_filter_simps order0_def cache0_def Itoa_def FormatUint.simps digit_char_def)
  show ?thesis
    using d export_import_roundtrip [OF enumerates_order0] by simp
qed

end
